theory Spec2Isabelle
  imports Main "HOL-Library.Char_ord" "HOL-Library.List_Lexorder"
begin

section \<open>Python values, classes and exceptions\<close>

text \<open>
  The module \<^verbatim>\<open>hypothesis/extra/django/_impl.py\<close> builds strategies for Django
  models and forms. Exceptions are values: a computation returns \<open>Inl e\<close> when the
  Python code raises \<open>e\<close>.
\<close>

datatype exc =
    InvalidArgument
  | IntegrityError
  | ValidationError
  | UnsatisfiedAssumption
  | KeyError string
  | FieldDoesNotExist string
  | TypeError
  | IndexError
  | OtherException nat

text \<open>\<^verbatim>\<open>field.default is dm.fields.NOT_PROVIDED\<close> compares with a sentinel.\<close>

datatype default_t = NOT_PROVIDED | ProvidedDefault

text \<open>
  A model field, with the attributes the module reads. \<open>concrete\<close> tells whether
  the field is listed in \<^verbatim>\<open>model._meta.concrete_fields\<close>; every field of the
  model can be found with \<^verbatim>\<open>model._meta.get_field\<close>, by its \<open>name\<close> and by
  its \<open>attname\<close> (\<^verbatim>\<open>company_id\<close> for a foreign key \<^verbatim>\<open>company\<close>, the
  name itself for a field that is no relation).
\<close>

record model_field =
  name :: string
  attname :: string
  auto_created :: bool
  fdefault :: default_t
  primary_key :: bool
  concrete :: bool

text \<open>A form field; \<open>field_id\<close> stands for the rest of the field object.\<close>

record form_field =
  disabled :: bool
  field_id :: nat

datatype anyfield = MF model_field | FF form_field

text \<open>
  The first argument of \<^verbatim>\<open>from_model\<close> or \<^verbatim>\<open>from_form\<close>: a subclass of
  \<^verbatim>\<open>dm.Model\<close> with the fields of its \<^verbatim>\<open>_meta\<close>, a subclass of
  \<^verbatim>\<open>df.BaseForm\<close>, any other class, or an object that is no class at all.
\<close>

datatype pyclass =
    ModelClass nat "model_field list"
  | FormClass nat
  | OtherClass nat
  | NotAClass nat

text \<open>
  Python values are untyped. \<open>Infer\<close> is the sentinel
  \<^verbatim>\<open>hypothesis.utils.conventions.infer\<close>. The last five constructors are the
  instances of \<^verbatim>\<open>st.SearchStrategy\<close>: \<open>Strategy n\<close> is a strategy of the
  testing library that this module does not look into (given by the caller or returned
  by \<^verbatim>\<open>from_field\<close>), the others are the strategies this module builds.
  A callable is what \<^verbatim>\<open>st.builds\<close> is given as its target: a manager method
  of a model, or a subclass of \<^verbatim>\<open>_FormWrap\<close> made by
  \<^verbatim>\<open>type('ignored', (_FormWrap,), {...})\<close>, with the class attributes its own
  dictionary defines (\<open>None\<close>: the attribute is inherited from \<^verbatim>\<open>_FormWrap\<close>).
\<close>

datatype pyval =
    PyNone
  | PyBool bool
  | PyInt int
  | PyStr string
  | PyTuple "pyval list"
  | PyDict "(string \<times> pyval) list"
  | PyObj nat
  | Infer
  | Strategy nat
  | FixedDictionaries "(string \<times> pyval) list"
  | Builds callable "(string \<times> pyval) list"
  | ModelsImpl pyval
  | FormsImpl pyval
and callable =
    UpdateOrCreate pyclass
  | GetOrCreate pyclass
  | FormWrapSub "pyclass option" "(string \<times> pyval) list option"

fun isinstance_SearchStrategy :: "pyval \<Rightarrow> bool" where
  "isinstance_SearchStrategy (Strategy n) = True"
| "isinstance_SearchStrategy (FixedDictionaries d) = True"
| "isinstance_SearchStrategy (Builds c kw) = True"
| "isinstance_SearchStrategy (ModelsImpl s) = True"
| "isinstance_SearchStrategy (FormsImpl s) = True"
| "isinstance_SearchStrategy v = False"

text \<open>
  \<^verbatim>\<open>issubclass(x, C)\<close> raises \<^verbatim>\<open>TypeError\<close> when \<open>x\<close> is no class;
  for a class it answers as follows.
\<close>

fun isclass :: "pyclass \<Rightarrow> bool" where
  "isclass (NotAClass n) = False"
| "isclass c = True"

fun issubclass_Model :: "pyclass \<Rightarrow> bool" where
  "issubclass_Model (ModelClass n fs) = True"
| "issubclass_Model c = False"

fun issubclass_BaseForm :: "pyclass \<Rightarrow> bool" where
  "issubclass_BaseForm (FormClass n) = True"
| "issubclass_BaseForm c = False"

section \<open>Dictionaries\<close>

text \<open>
  A Python dictionary with string keys, in insertion order: assigning to a key that is
  present keeps its place, a new key goes to the end.
\<close>

type_synonym 'v dict = "(string \<times> 'v) list"

definition dict_get :: "'v dict \<Rightarrow> string \<Rightarrow> 'v option" where
  "dict_get d k = map_of d k"

definition dict_keys :: "'v dict \<Rightarrow> string list" where
  "dict_keys d = map fst d"

fun dict_set :: "'v dict \<Rightarrow> string \<Rightarrow> 'v \<Rightarrow> 'v dict" where
  "dict_set [] k v = [(k, v)]"
| "dict_set ((k', v') # d) k v =
     (if k' = k then (k, v) # d else (k', v') # dict_set d k v)"

definition dict_pop :: "'v dict \<Rightarrow> string \<Rightarrow> 'v dict" where
  "dict_pop d k = filter (\<lambda>kv. fst kv \<noteq> k) d"

text \<open>\<^verbatim>\<open>{f.name: f for f in fs}\<close>: a later field replaces an earlier one of the same name.\<close>

fun dict_of_fields :: "model_field list \<Rightarrow> model_field dict \<Rightarrow> model_field dict" where
  "dict_of_fields [] d = d"
| "dict_of_fields (f # fs) d = dict_of_fields fs (dict_set d (name f) f)"

text \<open>\<^verbatim>\<open>sorted(d.items())\<close>: the keys of a dictionary differ, so the pairs are ordered by key.\<close>

definition sorted_items :: "'v dict \<Rightarrow> (string \<times> 'v) list" where
  "sorted_items d = sort_key fst d"

section \<open>from_model\<close>

text \<open>
  \<^verbatim>\<open>from_field\<close> lives in another module; it is a parameter \<open>ff\<close> here and may
  raise. Every function below also returns the list of its calls to \<open>ff\<close>, in order, as
  pairs of the field's name and the field.
\<close>

type_synonym from_field_t = "anyfield \<Rightarrow> exc + pyval"
type_synonym calls = "(string \<times> anyfield) list"

definition concrete_fields :: "pyclass \<Rightarrow> model_field list" where
  "concrete_fields model =
     (case model of ModelClass n fs \<Rightarrow> filter concrete fs | _ \<Rightarrow> [])"

text \<open>
  \<^verbatim>\<open>model._meta.get_field(field)\<close> looks the key up in a dictionary that the
  framework fills field by field, under the field's name and under its attname: the last
  field with that name or attname is found.
\<close>

definition get_field :: "pyclass \<Rightarrow> string \<Rightarrow> exc + model_field" where
  "get_field model field =
     (case model of
        ModelClass n fs \<Rightarrow>
          (case find (\<lambda>f. name f = field \<or> attname f = field) (rev fs) of
             None \<Rightarrow> Inl (FieldDoesNotExist field)
           | Some f \<Rightarrow> Inr f)
      | _ \<Rightarrow> Inl (FieldDoesNotExist field))"

text \<open>
  \<^verbatim>\<open>for name, value in sorted(field_strategies.items()):
      if value is infer:
          field_strategies[name] = from_field(fields_by_name[name])\<close>
\<close>

fun model_infer_loop ::
  "from_field_t \<Rightarrow> model_field dict \<Rightarrow> (string \<times> pyval) list \<Rightarrow> pyval dict \<Rightarrow> calls
     \<Rightarrow> (exc + pyval dict) \<times> calls" where
  "model_infer_loop ff fields_by_name [] field_strategies log =
     (Inr field_strategies, log)"
| "model_infer_loop ff fields_by_name ((nm, value) # rest) field_strategies log =
     (if value = Infer then
        (case dict_get fields_by_name nm of
           None \<Rightarrow> (Inl (KeyError nm), log)
         | Some field \<Rightarrow>
             (case ff (MF field) of
                Inl e \<Rightarrow> (Inl e, log @ [(nm, MF field)])
              | Inr s \<Rightarrow>
                  model_infer_loop ff fields_by_name rest
                    (dict_set field_strategies nm s) (log @ [(nm, MF field)])))
      else model_infer_loop ff fields_by_name rest field_strategies log)"

text \<open>
  \<^verbatim>\<open>for name, field in sorted(fields_by_name.items()):
      if (name not in field_strategies and not field.auto_created
              and field.default is dm.fields.NOT_PROVIDED):
          field_strategies[name] = from_field(field)\<close>
\<close>

fun model_default_loop ::
  "from_field_t \<Rightarrow> (string \<times> model_field) list \<Rightarrow> pyval dict \<Rightarrow> calls
     \<Rightarrow> (exc + pyval dict) \<times> calls" where
  "model_default_loop ff [] field_strategies log = (Inr field_strategies, log)"
| "model_default_loop ff ((nm, field) # rest) field_strategies log =
     (if nm \<notin> set (dict_keys field_strategies) \<and> \<not> auto_created field
         \<and> fdefault field = NOT_PROVIDED then
        (case ff (MF field) of
           Inl e \<Rightarrow> (Inl e, log @ [(nm, MF field)])
         | Inr s \<Rightarrow>
             model_default_loop ff rest (dict_set field_strategies nm s)
               (log @ [(nm, MF field)]))
      else model_default_loop ff rest field_strategies log)"

text \<open>
  \<^verbatim>\<open>for field in field_strategies:
      if model._meta.get_field(field).primary_key:
          kwargs = {field: field_strategies.pop(field)}
          kwargs["defaults"] = st.fixed_dictionaries(field_strategies)
          return _models_impl(st.builds(model.objects.update_or_create, **kwargs))
  return _models_impl(st.builds(model.objects.get_or_create, **field_strategies))\<close>
  The loop runs over the keys in the dictionary's order and returns at the first
  primary key. \<^verbatim>\<open>kwargs\<close> is a dictionary: the assignment to its key
  \<^verbatim>\<open>"defaults"\<close> replaces an entry of that name.
\<close>

fun primary_key_loop :: "pyclass \<Rightarrow> pyval dict \<Rightarrow> string list \<Rightarrow> exc + pyval" where
  "primary_key_loop model field_strategies [] =
     Inr (ModelsImpl (Builds (GetOrCreate model) field_strategies))"
| "primary_key_loop model field_strategies (field # rest) =
     (case get_field model field of
        Inl e \<Rightarrow> Inl e
      | Inr f \<Rightarrow>
          if primary_key f then
            (case dict_get field_strategies field of
               None \<Rightarrow> Inl (KeyError field)
             | Some s \<Rightarrow>
                 Inr (ModelsImpl (Builds (UpdateOrCreate model)
                   (dict_set [(field, s)] ''defaults''
                      (FixedDictionaries (dict_pop field_strategies field))))))
          else primary_key_loop model field_strategies rest)"

text \<open>
  Lines 96 to 106, the two loops together: the dictionary \<^verbatim>\<open>field_strategies\<close>
  as the last loop finds it, or the exception that ended them, and the calls made.
\<close>

definition model_field_strategies ::
  "from_field_t \<Rightarrow> pyclass \<Rightarrow> pyval dict \<Rightarrow> (exc + pyval dict) \<times> calls" where
  "model_field_strategies ff model field_strategies =
     (let fields_by_name = dict_of_fields (concrete_fields model) [] in
      (case model_infer_loop ff fields_by_name (sorted_items field_strategies)
              field_strategies [] of
         (Inl e, log) \<Rightarrow> (Inl e, log)
       | (Inr fs1, log1) \<Rightarrow>
           model_default_loop ff (sorted_items fields_by_name) fs1 log1))"

text \<open>
  The function \<^verbatim>\<open>from_model\<close> as it is written, lines 93 to 120. The decorator
  \<^verbatim>\<open>@st.defines_strategy\<close> of line 63 wraps it: see \<open>defines_strategy\<close> below
  for a call of the decorated name.
\<close>

definition from_model :: "from_field_t \<Rightarrow> pyclass \<Rightarrow> pyval dict \<Rightarrow> (exc + pyval) \<times> calls" where
  "from_model ff model field_strategies =
     (if \<not> isclass model then (Inl TypeError, [])
      else if \<not> issubclass_Model model then (Inl InvalidArgument, [])
      else
        let fields_by_name = dict_of_fields (concrete_fields model) [] in
        (case model_infer_loop ff fields_by_name (sorted_items field_strategies)
                field_strategies [] of
           (Inl e, log) \<Rightarrow> (Inl e, log)
         | (Inr fs1, log1) \<Rightarrow>
             (case model_default_loop ff (sorted_items fields_by_name) fs1 log1 of
                (Inl e, log) \<Rightarrow> (Inl e, log)
              | (Inr fs2, log2) \<Rightarrow> (primary_key_loop model fs2 (dict_keys fs2), log2))))"

section \<open>from_form\<close>

text \<open>
  \<^verbatim>\<open>for k, v in field_strategies_and_form_kwargs.items():
      if isinstance(v, st.SearchStrategy):
          field_strategies[k] = v
      else:
          form_kwargs[k] = v\<close>
\<close>

fun split_loop ::
  "(string \<times> pyval) list \<Rightarrow> pyval dict \<Rightarrow> pyval dict \<Rightarrow> pyval dict \<times> pyval dict" where
  "split_loop [] field_strategies form_kwargs = (field_strategies, form_kwargs)"
| "split_loop ((k, v) # rest) field_strategies form_kwargs =
     (if isinstance_SearchStrategy v
      then split_loop rest (dict_set field_strategies k v) form_kwargs
      else split_loop rest field_strategies (dict_set form_kwargs k v))"

text \<open>
  \<^verbatim>\<open>for name, value in sorted(field_strategies.items()):
      if value is infer:
          field_strategies[name] = from_field(fields_by_name[name])\<close>
\<close>

fun form_infer_loop ::
  "from_field_t \<Rightarrow> form_field dict \<Rightarrow> (string \<times> pyval) list \<Rightarrow> pyval dict \<Rightarrow> calls
     \<Rightarrow> (exc + pyval dict) \<times> calls" where
  "form_infer_loop ff fields_by_name [] field_strategies log =
     (Inr field_strategies, log)"
| "form_infer_loop ff fields_by_name ((nm, value) # rest) field_strategies log =
     (if value = Infer then
        (case dict_get fields_by_name nm of
           None \<Rightarrow> (Inl (KeyError nm), log)
         | Some field \<Rightarrow>
             (case ff (FF field) of
                Inl e \<Rightarrow> (Inl e, log @ [(nm, FF field)])
              | Inr s \<Rightarrow>
                  form_infer_loop ff fields_by_name rest
                    (dict_set field_strategies nm s) (log @ [(nm, FF field)])))
      else form_infer_loop ff fields_by_name rest field_strategies log)"

text \<open>
  \<^verbatim>\<open>for name, field in sorted(fields_by_name.items()):
      if (name not in field_strategies and not field.disabled):
          field_strategies[name] = from_field(field)\<close>
\<close>

fun form_default_loop ::
  "from_field_t \<Rightarrow> (string \<times> form_field) list \<Rightarrow> pyval dict \<Rightarrow> calls
     \<Rightarrow> (exc + pyval dict) \<times> calls" where
  "form_default_loop ff [] field_strategies log = (Inr field_strategies, log)"
| "form_default_loop ff ((nm, field) # rest) field_strategies log =
     (if nm \<notin> set (dict_keys field_strategies) \<and> \<not> disabled field then
        (case ff (FF field) of
           Inl e \<Rightarrow> (Inl e, log @ [(nm, FF field)])
         | Inr s \<Rightarrow>
             form_default_loop ff rest (dict_set field_strategies nm s)
               (log @ [(nm, FF field)]))
      else form_default_loop ff rest field_strategies log)"

text \<open>
  \<^verbatim>\<open>blank_form = form(**form_kwargs)\<close> runs the constructor of a class of the forms
  framework: \<open>blank_fields form form_kwargs\<close> is the dictionary
  \<^verbatim>\<open>blank_form.fields\<close> of the instance, or the exception of the constructor.
\<close>

type_synonym blank_fields_t = "pyclass \<Rightarrow> pyval dict \<Rightarrow> exc + form_field dict"

text \<open>
  The \<^verbatim>\<open>print(form.__mro__)\<close> before the \<^verbatim>\<open>raise\<close> writes to the standard
  output only and is left out.
\<close>

text \<open>
  Lines 191 to 209: the split of the keyword arguments, the blank form and the two
  loops; the dictionary \<^verbatim>\<open>field_strategies\<close> at line 223, or the exception that
  ended them, and the calls made.
\<close>

definition form_field_strategies ::
  "from_field_t \<Rightarrow> blank_fields_t \<Rightarrow> pyclass \<Rightarrow> pyval dict \<Rightarrow> (exc + pyval dict) \<times> calls" where
  "form_field_strategies ff blank_fields form field_strategies_and_form_kwargs =
     (case split_loop field_strategies_and_form_kwargs [] [] of
        (field_strategies, form_kwargs) \<Rightarrow>
          (case blank_fields form form_kwargs of
             Inl e \<Rightarrow> (Inl e, [])
           | Inr fields_by_name \<Rightarrow>
               (case form_infer_loop ff fields_by_name (sorted_items field_strategies)
                       field_strategies [] of
                  (Inl e, log) \<Rightarrow> (Inl e, log)
                | (Inr fs1, log1) \<Rightarrow>
                    form_default_loop ff (sorted_items fields_by_name) fs1 log1)))"

text \<open>
  The function \<^verbatim>\<open>from_form\<close> as it is written, lines 180 to 225; the decorator of
  line 155 wraps it.
\<close>

definition from_form ::
  "from_field_t \<Rightarrow> blank_fields_t \<Rightarrow> pyclass \<Rightarrow> pyval dict \<Rightarrow> (exc + pyval) \<times> calls" where
  "from_form ff blank_fields form field_strategies_and_form_kwargs =
     (if \<not> isclass form then (Inl TypeError, [])
      else if \<not> issubclass_BaseForm form then (Inl InvalidArgument, [])
      else
        (case split_loop field_strategies_and_form_kwargs [] [] of
           (field_strategies, form_kwargs) \<Rightarrow>
             (case blank_fields form form_kwargs of
                Inl e \<Rightarrow> (Inl e, [])
              | Inr fields_by_name \<Rightarrow>
                  (case form_infer_loop ff fields_by_name (sorted_items field_strategies)
                          field_strategies [] of
                     (Inl e, log) \<Rightarrow> (Inl e, log)
                   | (Inr fs1, log1) \<Rightarrow>
                       (case form_default_loop ff (sorted_items fields_by_name) fs1 log1 of
                          (Inl e, log) \<Rightarrow> (Inl e, log)
                        | (Inr fs2, log2) \<Rightarrow>
                            (Inr (FormsImpl (Builds
                               (FormWrapSub (Some form) (Some form_kwargs)) fs2)),
                             log2))))))"

section \<open>Drawing examples\<close>

text \<open>
  The state of the module itself: the two class attributes of \<^verbatim>\<open>_FormWrap\<close>,
  \<^verbatim>\<open>wraps = df.Form\<close> and \<^verbatim>\<open>form_kwargs = {}\<close>, which a subclass inherits
  unless its own dictionary defines them.
\<close>

record module_state =
  FormWrap_wraps :: pyclass
  FormWrap_form_kwargs :: "pyval dict"

text \<open>
  What drawing depends on outside this module, over a world \<open>'w\<close> (random choices,
  data base): drawing from a strategy of the library, the two manager methods, which
  return the pair \<^verbatim>\<open>(object, created)\<close>, and the constructor of a form class.
\<close>

type_synonym 'w outcome = "(exc + pyval) \<times> 'w"

record 'w env =
  draw_opaque :: "nat \<Rightarrow> 'w \<Rightarrow> 'w outcome"
  update_or_create :: "pyclass \<Rightarrow> pyval dict \<Rightarrow> 'w \<Rightarrow> (exc + pyval \<times> bool) \<times> 'w"
  get_or_create :: "pyclass \<Rightarrow> pyval dict \<Rightarrow> 'w \<Rightarrow> (exc + pyval \<times> bool) \<times> 'w"
  form_init :: "pyclass \<Rightarrow> pyval dict \<Rightarrow> 'w \<Rightarrow> 'w outcome"

text \<open>\<^verbatim>\<open>hypothesis.reject()\<close> raises; the engine discards the example and draws another.\<close>

definition reject :: "'w \<Rightarrow> 'w outcome" where
  "reject w = (Inl UnsatisfiedAssumption, w)"

text \<open>\<^verbatim>\<open>v[0]\<close>\<close>

fun getitem0 :: "pyval \<Rightarrow> exc + pyval" where
  "getitem0 (PyTuple (x # xs)) = Inr x"
| "getitem0 (PyTuple []) = Inl IndexError"
| "getitem0 (PyStr (c # cs)) = Inr (PyStr [c])"
| "getitem0 (PyStr []) = Inl IndexError"
| "getitem0 v = Inl TypeError"

text \<open>
  \<^verbatim>\<open>def _models_impl(draw, strat):
      try:
          return draw(strat)[0]
      except IntegrityError:
          reject()\<close>
\<close>

definition models_impl :: "(pyval \<Rightarrow> 'w \<Rightarrow> 'w outcome) \<Rightarrow> pyval \<Rightarrow> 'w \<Rightarrow> 'w outcome" where
  "models_impl draw strat w =
     (case (case draw strat w of
              (Inl e, w') \<Rightarrow> (Inl e, w')
            | (Inr r, w') \<Rightarrow> (getitem0 r, w')) of
        (Inl e, w') \<Rightarrow> if e = IntegrityError then reject w' else (Inl e, w')
      | (Inr v, w') \<Rightarrow> (Inr v, w'))"

text \<open>
  \<^verbatim>\<open>def _forms_impl(draw, strat):
      try:
          return draw(strat)
      except ValidationError:
          reject()\<close>
\<close>

definition forms_impl :: "(pyval \<Rightarrow> 'w \<Rightarrow> 'w outcome) \<Rightarrow> pyval \<Rightarrow> 'w \<Rightarrow> 'w outcome" where
  "forms_impl draw strat w =
     (case draw strat w of
        (Inl e, w') \<Rightarrow> if e = ValidationError then reject w' else (Inl e, w')
      | (Inr v, w') \<Rightarrow> (Inr v, w'))"

text \<open>
  \<^verbatim>\<open>def __new__(self, **kwargs):
      return self.wraps(data=kwargs, **self.form_kwargs)\<close>
  Python refuses a keyword argument named like the positional parameter
  \<^verbatim>\<open>self\<close>, and a second value for \<^verbatim>\<open>data\<close>.
\<close>

definition FormWrap_new ::
  "'w env \<Rightarrow> module_state \<Rightarrow> pyclass option \<Rightarrow> pyval dict option \<Rightarrow> pyval dict \<Rightarrow> 'w
     \<Rightarrow> 'w outcome" where
  "FormWrap_new E g own_wraps own_form_kwargs kwargs w =
     (if ''self'' \<in> set (dict_keys kwargs) then (Inl TypeError, w)
      else
        let wraps = (case own_wraps of Some c \<Rightarrow> c | None \<Rightarrow> FormWrap_wraps g);
            form_kwargs =
              (case own_form_kwargs of Some d \<Rightarrow> d | None \<Rightarrow> FormWrap_form_kwargs g)
        in if ''data'' \<in> set (dict_keys form_kwargs) then (Inl TypeError, w)
           else form_init E wraps ((''data'', PyDict kwargs) # form_kwargs) w)"

text \<open>Calling the target of \<^verbatim>\<open>st.builds\<close> with keyword arguments.\<close>

definition pair_result :: "(exc + pyval \<times> bool) \<times> 'w \<Rightarrow> 'w outcome" where
  "pair_result r =
     (case r of
        (Inl e, w') \<Rightarrow> (Inl e, w')
      | (Inr (obj, created), w') \<Rightarrow> (Inr (PyTuple [obj, PyBool created]), w'))"

fun call :: "'w env \<Rightarrow> module_state \<Rightarrow> callable \<Rightarrow> pyval dict \<Rightarrow> 'w \<Rightarrow> 'w outcome" where
  "call E g (UpdateOrCreate model) kwargs w = pair_result (update_or_create E model kwargs w)"
| "call E g (GetOrCreate model) kwargs w = pair_result (get_or_create E model kwargs w)"
| "call E g (FormWrapSub own_wraps own_form_kwargs) kwargs w =
     FormWrap_new E g own_wraps own_form_kwargs kwargs w"

text \<open>
  Modelled from the spec: \<^verbatim>\<open>st.builds\<close>, \<^verbatim>\<open>st.fixed_dictionaries\<close> and
  \<^verbatim>\<open>st.composite\<close> belong to the testing library, which the spec leaves out of
  scope ("strategy combinators ... out of scope") and which is not part of this module.
  They are taken with their documented meaning: \<^verbatim>\<open>builds(target, **kw)\<close> draws a
  value from each keyword strategy and returns \<^verbatim>\<open>target(**values)\<close>;
  \<^verbatim>\<open>fixed_dictionaries(d)\<close> draws a dictionary with a value for each key; a
  composite strategy runs its function with the engine's \<^verbatim>\<open>draw\<close>. A value that
  is no strategy is refused with \<^verbatim>\<open>InvalidArgument\<close>. An exception ends the draw.
\<close>

text \<open>Both wrappers apply \<open>draw\<close> to their own strategy only.\<close>

lemma models_impl_cong [fundef_cong]:
  "strat = strat' \<Longrightarrow> w = w' \<Longrightarrow> (\<And>v. d strat' v = d' strat' v)
     \<Longrightarrow> models_impl d strat w = models_impl d' strat' w'"
  by (simp add: models_impl_def)

lemma forms_impl_cong [fundef_cong]:
  "strat = strat' \<Longrightarrow> w = w' \<Longrightarrow> (\<And>v. d strat' v = d' strat' v)
     \<Longrightarrow> forms_impl d strat w = forms_impl d' strat' w'"
  by (simp add: forms_impl_def)

fun draw :: "'w env \<Rightarrow> module_state \<Rightarrow> pyval \<Rightarrow> 'w \<Rightarrow> 'w outcome"
and draw_kwargs ::
  "'w env \<Rightarrow> module_state \<Rightarrow> (string \<times> pyval) list \<Rightarrow> 'w \<Rightarrow> (exc + pyval dict) \<times> 'w" where
  "draw E g (Strategy n) w = draw_opaque E n w"
| "draw E g (FixedDictionaries d) w =
     (case draw_kwargs E g d w of
        (Inl e, w') \<Rightarrow> (Inl e, w')
      | (Inr vals, w') \<Rightarrow> (Inr (PyDict vals), w'))"
| "draw E g (Builds target kw) w =
     (case draw_kwargs E g kw w of
        (Inl e, w') \<Rightarrow> (Inl e, w')
      | (Inr vals, w') \<Rightarrow> call E g target vals w')"
| "draw E g (ModelsImpl strat) w = models_impl (draw E g) strat w"
| "draw E g (FormsImpl strat) w = forms_impl (draw E g) strat w"
| "draw E g PyNone w = (Inl InvalidArgument, w)"
| "draw E g (PyBool b) w = (Inl InvalidArgument, w)"
| "draw E g (PyInt i) w = (Inl InvalidArgument, w)"
| "draw E g (PyStr s) w = (Inl InvalidArgument, w)"
| "draw E g (PyTuple vs) w = (Inl InvalidArgument, w)"
| "draw E g (PyDict d) w = (Inl InvalidArgument, w)"
| "draw E g (PyObj n) w = (Inl InvalidArgument, w)"
| "draw E g Infer w = (Inl InvalidArgument, w)"
| "draw_kwargs E g [] w = (Inr [], w)"
| "draw_kwargs E g ((k, s) # rest) w =
     (case draw E g s w of
        (Inl e, w') \<Rightarrow> (Inl e, w')
      | (Inr v, w') \<Rightarrow>
          (case draw_kwargs E g rest w' of
             (Inl e, w'') \<Rightarrow> (Inl e, w'')
           | (Inr vs, w'') \<Rightarrow> (Inr ((k, v) # vs), w'')))"

section \<open>The decorated functions\<close>

text \<open>
  Modelled from the spec: the decorator \<^verbatim>\<open>st.defines_strategy\<close> of lines 63 and
  155 belongs to the testing library ("the generation engine ... strategy combinators
  ... out of scope") and is not part of this module. A call of a decorated function
  runs none of the function: it returns a \<^verbatim>\<open>LazyStrategy\<close> that keeps the function
  and its arguments. The function runs when the lazy strategy is resolved
  (\<^verbatim>\<open>wrapped_strategy\<close>), which the engine does before it validates the strategy
  or draws from it; an exception of the function is raised there.
\<close>

datatype api_call = FromModel pyclass "pyval dict" | FromForm pyclass "pyval dict"

datatype lazy = LazyStrategy api_call

definition defines_strategy :: "api_call \<Rightarrow> exc + lazy" where
  "defines_strategy c = Inr (LazyStrategy c)"

fun wrapped_strategy ::
  "from_field_t \<Rightarrow> blank_fields_t \<Rightarrow> lazy \<Rightarrow> (exc + pyval) \<times> calls" where
  "wrapped_strategy ff bf (LazyStrategy (FromModel model kw)) = from_model ff model kw"
| "wrapped_strategy ff bf (LazyStrategy (FromForm form kw)) = from_form ff bf form kw"

definition draw_lazy ::
  "'w env \<Rightarrow> module_state \<Rightarrow> from_field_t \<Rightarrow> blank_fields_t \<Rightarrow> lazy \<Rightarrow> 'w
     \<Rightarrow> 'w outcome" where
  "draw_lazy E g ff bf lz w =
     (case wrapped_strategy ff bf lz of
        (Inl e, log) \<Rightarrow> (Inl e, w)
      | (Inr strat, log) \<Rightarrow> draw E g strat w)"

section \<open>The two functions on a store\<close>

text \<open>
  To see what a call reads and writes, the two functions are written once more as steps
  on a store. The store holds the state of the module, that is the class attributes of
  \<^verbatim>\<open>_FormWrap\<close>, and every dictionary object made so far, at its address. The call
  of a function with \<^verbatim>\<open>**kwargs\<close> makes a new dictionary for them, \<^verbatim>\<open>{}\<close>
  makes a new dictionary, an assignment \<^verbatim>\<open>d[k] = v\<close> and \<^verbatim>\<open>d.pop(k)\<close> change
  the dictionary at the address of \<open>d\<close>.
\<close>

record heap =
  FormWrap_attrs :: module_state
  dicts :: "pyval dict list"

definition new_dict :: "pyval dict \<Rightarrow> heap \<Rightarrow> nat \<times> heap" where
  "new_dict d h = (length (dicts h), h\<lparr>dicts := dicts h @ [d]\<rparr>)"

definition getd :: "heap \<Rightarrow> nat \<Rightarrow> pyval dict" where
  "getd h a = dicts h ! a"

definition setitem :: "heap \<Rightarrow> nat \<Rightarrow> string \<Rightarrow> pyval \<Rightarrow> heap" where
  "setitem h a k v = h\<lparr>dicts := (dicts h)[a := dict_set (dicts h ! a) k v]\<rparr>"

definition popitem :: "heap \<Rightarrow> nat \<Rightarrow> string \<Rightarrow> heap" where
  "popitem h a k = h\<lparr>dicts := (dicts h)[a := dict_pop (dicts h ! a) k]\<rparr>"

text \<open>
  The loops of \<^verbatim>\<open>from_model\<close>, lines 97 to 99, 100 to 106 and 108 to 120, with
  \<^verbatim>\<open>field_strategies\<close> at the address \<open>a\<close>. A loop returns the exception that
  ended it, if any. In the last loop \<^verbatim>\<open>kwargs = {field: ...}\<close> makes a new
  dictionary; \<^verbatim>\<open>st.fixed_dictionaries\<close> and \<^verbatim>\<open>st.builds\<close> are given the
  dictionaries as they are at that line, and no line writes them after it.
\<close>

fun model_infer_loop_st ::
  "from_field_t \<Rightarrow> model_field dict \<Rightarrow> (string \<times> pyval) list \<Rightarrow> nat \<Rightarrow> calls \<Rightarrow> heap
     \<Rightarrow> (exc option \<times> calls) \<times> heap" where
  "model_infer_loop_st ff fields_by_name [] a log h = ((None, log), h)"
| "model_infer_loop_st ff fields_by_name ((nm, value) # rest) a log h =
     (if value = Infer then
        (case dict_get fields_by_name nm of
           None \<Rightarrow> ((Some (KeyError nm), log), h)
         | Some field \<Rightarrow>
             (case ff (MF field) of
                Inl e \<Rightarrow> ((Some e, log @ [(nm, MF field)]), h)
              | Inr s \<Rightarrow>
                  model_infer_loop_st ff fields_by_name rest a (log @ [(nm, MF field)])
                    (setitem h a nm s)))
      else model_infer_loop_st ff fields_by_name rest a log h)"

fun model_default_loop_st ::
  "from_field_t \<Rightarrow> (string \<times> model_field) list \<Rightarrow> nat \<Rightarrow> calls \<Rightarrow> heap
     \<Rightarrow> (exc option \<times> calls) \<times> heap" where
  "model_default_loop_st ff [] a log h = ((None, log), h)"
| "model_default_loop_st ff ((nm, field) # rest) a log h =
     (if nm \<notin> set (dict_keys (getd h a)) \<and> \<not> auto_created field
         \<and> fdefault field = NOT_PROVIDED then
        (case ff (MF field) of
           Inl e \<Rightarrow> ((Some e, log @ [(nm, MF field)]), h)
         | Inr s \<Rightarrow>
             model_default_loop_st ff rest a (log @ [(nm, MF field)]) (setitem h a nm s))
      else model_default_loop_st ff rest a log h)"

fun primary_key_loop_st ::
  "pyclass \<Rightarrow> nat \<Rightarrow> string list \<Rightarrow> heap \<Rightarrow> (exc + pyval) \<times> heap" where
  "primary_key_loop_st model a [] h =
     (Inr (ModelsImpl (Builds (GetOrCreate model) (getd h a))), h)"
| "primary_key_loop_st model a (field # rest) h =
     (case get_field model field of
        Inl e \<Rightarrow> (Inl e, h)
      | Inr f \<Rightarrow>
          if primary_key f then
            (case dict_get (getd h a) field of
               None \<Rightarrow> (Inl (KeyError field), h)
             | Some s \<Rightarrow>
                 (case new_dict [(field, s)] (popitem h a field) of
                    (kwargs, h1) \<Rightarrow>
                      let h2 = setitem h1 kwargs ''defaults'' (FixedDictionaries (getd h1 a))
                      in (Inr (ModelsImpl (Builds (UpdateOrCreate model) (getd h2 kwargs))),
                          h2)))
          else primary_key_loop_st model a rest h)"

definition from_model_st ::
  "from_field_t \<Rightarrow> pyclass \<Rightarrow> pyval dict \<Rightarrow> heap \<Rightarrow> ((exc + pyval) \<times> calls) \<times> heap" where
  "from_model_st ff model kw h =
     (case new_dict kw h of
        (field_strategies, h0) \<Rightarrow>
          if \<not> isclass model then ((Inl TypeError, []), h0)
          else if \<not> issubclass_Model model then ((Inl InvalidArgument, []), h0)
          else
            let fields_by_name = dict_of_fields (concrete_fields model) [] in
            (case model_infer_loop_st ff fields_by_name
                    (sorted_items (getd h0 field_strategies)) field_strategies [] h0 of
               ((Some e, log), h1) \<Rightarrow> ((Inl e, log), h1)
             | ((None, log1), h1) \<Rightarrow>
                 (case model_default_loop_st ff (sorted_items fields_by_name)
                         field_strategies log1 h1 of
                    ((Some e, log), h2) \<Rightarrow> ((Inl e, log), h2)
                  | ((None, log2), h2) \<Rightarrow>
                      (case primary_key_loop_st model field_strategies
                              (dict_keys (getd h2 field_strategies)) h2 of
                         (r, h3) \<Rightarrow> ((r, log2), h3)))))"

text \<open>
  The loops of \<^verbatim>\<open>from_form\<close>, lines 193 to 197, 201 to 203 and 204 to 209, with
  \<^verbatim>\<open>field_strategies\<close> at the address \<open>a\<close> and \<^verbatim>\<open>form_kwargs\<close> at \<open>b\<close>.
\<close>

fun split_loop_st :: "(string \<times> pyval) list \<Rightarrow> nat \<Rightarrow> nat \<Rightarrow> heap \<Rightarrow> heap" where
  "split_loop_st [] a b h = h"
| "split_loop_st ((k, v) # rest) a b h =
     (if isinstance_SearchStrategy v
      then split_loop_st rest a b (setitem h a k v)
      else split_loop_st rest a b (setitem h b k v))"

fun form_infer_loop_st ::
  "from_field_t \<Rightarrow> form_field dict \<Rightarrow> (string \<times> pyval) list \<Rightarrow> nat \<Rightarrow> calls \<Rightarrow> heap
     \<Rightarrow> (exc option \<times> calls) \<times> heap" where
  "form_infer_loop_st ff fields_by_name [] a log h = ((None, log), h)"
| "form_infer_loop_st ff fields_by_name ((nm, value) # rest) a log h =
     (if value = Infer then
        (case dict_get fields_by_name nm of
           None \<Rightarrow> ((Some (KeyError nm), log), h)
         | Some field \<Rightarrow>
             (case ff (FF field) of
                Inl e \<Rightarrow> ((Some e, log @ [(nm, FF field)]), h)
              | Inr s \<Rightarrow>
                  form_infer_loop_st ff fields_by_name rest a (log @ [(nm, FF field)])
                    (setitem h a nm s)))
      else form_infer_loop_st ff fields_by_name rest a log h)"

fun form_default_loop_st ::
  "from_field_t \<Rightarrow> (string \<times> form_field) list \<Rightarrow> nat \<Rightarrow> calls \<Rightarrow> heap
     \<Rightarrow> (exc option \<times> calls) \<times> heap" where
  "form_default_loop_st ff [] a log h = ((None, log), h)"
| "form_default_loop_st ff ((nm, field) # rest) a log h =
     (if nm \<notin> set (dict_keys (getd h a)) \<and> \<not> disabled field then
        (case ff (FF field) of
           Inl e \<Rightarrow> ((Some e, log @ [(nm, FF field)]), h)
         | Inr s \<Rightarrow>
             form_default_loop_st ff rest a (log @ [(nm, FF field)]) (setitem h a nm s))
      else form_default_loop_st ff rest a log h)"

text \<open>
  The class made at lines 223 and 224 keeps \<^verbatim>\<open>form\<close> and the dictionary
  \<^verbatim>\<open>form_kwargs\<close> as its own attributes, and \<^verbatim>\<open>st.builds\<close> copies its keyword
  arguments; no line writes either dictionary after that.
\<close>

definition from_form_st ::
  "from_field_t \<Rightarrow> blank_fields_t \<Rightarrow> pyclass \<Rightarrow> pyval dict \<Rightarrow> heap
     \<Rightarrow> ((exc + pyval) \<times> calls) \<times> heap" where
  "from_form_st ff blank_fields form kw h =
     (case new_dict kw h of
        (field_strategies_and_form_kwargs, h0) \<Rightarrow>
          if \<not> isclass form then ((Inl TypeError, []), h0)
          else if \<not> issubclass_BaseForm form then ((Inl InvalidArgument, []), h0)
          else
            (case new_dict [] h0 of
               (field_strategies, h1) \<Rightarrow>
                 (case new_dict [] h1 of
                    (form_kwargs, h2) \<Rightarrow>
                      let h3 = split_loop_st (getd h2 field_strategies_and_form_kwargs)
                                 field_strategies form_kwargs h2
                      in
                      (case blank_fields form (getd h3 form_kwargs) of
                         Inl e \<Rightarrow> ((Inl e, []), h3)
                       | Inr fields_by_name \<Rightarrow>
                           (case form_infer_loop_st ff fields_by_name
                                   (sorted_items (getd h3 field_strategies))
                                   field_strategies [] h3 of
                              ((Some e, log), h4) \<Rightarrow> ((Inl e, log), h4)
                            | ((None, log1), h4) \<Rightarrow>
                                (case form_default_loop_st ff (sorted_items fields_by_name)
                                        field_strategies log1 h4 of
                                   ((Some e, log), h5) \<Rightarrow> ((Inl e, log), h5)
                                 | ((None, log2), h5) \<Rightarrow>
                                     ((Inr (FormsImpl (Builds
                                         (FormWrapSub (Some form)
                                            (Some (getd h5 form_kwargs)))
                                         (getd h5 field_strategies))), log2), h5)))))))"

text \<open>A sequence of calls of the two functions, each starting in the store the last one left.\<close>

fun run_call ::
  "from_field_t \<Rightarrow> blank_fields_t \<Rightarrow> api_call \<Rightarrow> heap \<Rightarrow> ((exc + pyval) \<times> calls) \<times> heap" where
  "run_call ff bf (FromModel model kw) h = from_model_st ff model kw h"
| "run_call ff bf (FromForm form kw) h = from_form_st ff bf form kw h"

fun run_calls ::
  "from_field_t \<Rightarrow> blank_fields_t \<Rightarrow> api_call list \<Rightarrow> heap
     \<Rightarrow> ((exc + pyval) \<times> calls) list \<times> heap" where
  "run_calls ff bf [] h = ([], h)"
| "run_calls ff bf (c # cs) h =
     (case run_call ff bf c h of
        (r, h1) \<Rightarrow> (case run_calls ff bf cs h1 of (rs, h2) \<Rightarrow> (r # rs, h2)))"

text \<open>
  A value that reads no attribute of \<^verbatim>\<open>_FormWrap\<close> when it is drawn from: every
  subclass of \<^verbatim>\<open>_FormWrap\<close> in it defines \<^verbatim>\<open>wraps\<close> and
  \<^verbatim>\<open>form_kwargs\<close> itself.
\<close>

fun module_free :: "pyval \<Rightarrow> bool"
and module_free_kwargs :: "(string \<times> pyval) list \<Rightarrow> bool" where
  "module_free (FixedDictionaries d) = module_free_kwargs d"
| "module_free (Builds (FormWrapSub own_wraps own_form_kwargs) kw) =
     (own_wraps \<noteq> None \<and> own_form_kwargs \<noteq> None \<and> module_free_kwargs kw)"
| "module_free (Builds (UpdateOrCreate model) kw) = module_free_kwargs kw"
| "module_free (Builds (GetOrCreate model) kw) = module_free_kwargs kw"
| "module_free (ModelsImpl strat) = module_free strat"
| "module_free (FormsImpl strat) = module_free strat"
| "module_free (Strategy n) = True"
| "module_free PyNone = True"
| "module_free (PyBool b) = True"
| "module_free (PyInt i) = True"
| "module_free (PyStr s) = True"
| "module_free (PyTuple vs) = True"
| "module_free (PyDict d) = True"
| "module_free (PyObj n) = True"
| "module_free Infer = True"
| "module_free_kwargs [] = True"
| "module_free_kwargs ((k, v) # rest) = (module_free v \<and> module_free_kwargs rest)"

section \<open>Classes\<close>

lemma issubclass_Model_isclass [simp]: "issubclass_Model c \<Longrightarrow> isclass c"
  by (cases c) simp_all

lemma issubclass_BaseForm_isclass [simp]: "issubclass_BaseForm c \<Longrightarrow> isclass c"
  by (cases c) simp_all

section \<open>Dictionaries and the two loops of inference\<close>

lemma keys_dict_set:
  "dict_keys (dict_set d k v) =
     (if k \<in> set (dict_keys d) then dict_keys d else dict_keys d @ [k])"
  by (induction d) (force simp: dict_keys_def)+

lemma dict_keys_dict_set:
  "set (dict_keys (dict_set d k v)) = insert k (set (dict_keys d))"
  by (auto simp: keys_dict_set)

lemma dict_set_append:
  "k \<notin> set (dict_keys d) \<Longrightarrow> dict_set d k v = d @ [(k, v)]"
  by (induction d) (auto simp: dict_keys_def)


lemma dict_of_fields_distinct_names:
  "distinct (dict_keys d @ map name fs) \<Longrightarrow>
     dict_of_fields fs d = d @ map (\<lambda>f. (name f, f)) fs"
proof (induction fs arbitrary: d)
  case Nil
  then show ?case by simp
next
  case (Cons f fs)
  have "name f \<notin> set (dict_keys d)"
    using Cons.prems by auto
  then have step: "dict_set d (name f) f = d @ [(name f, f)]"
    by (rule dict_set_append)
  have "distinct (dict_keys (d @ [(name f, f)]) @ map name fs)"
    using Cons.prems by (auto simp: dict_keys_def)
  then show ?case
    using Cons.IH [of "d @ [(name f, f)]"] step by simp
qed

lemma set_sorted_items: "set (sorted_items d) = set d"
  by (simp add: sorted_items_def)

lemma distinct_keys_sorted_items:
  "distinct (map fst d) \<Longrightarrow> distinct (map fst (sorted_items d))"
  by (simp add: sorted_items_def distinct_map)

lemma model_infer_loop_calls:
  "model_infer_loop ff fbn items fs log = (Inr fs', log') \<Longrightarrow>
     set log' = set log \<union> {(n, MF f) | n f. (n, Infer) \<in> set items \<and> dict_get fbn n = Some f}
     \<and> set (dict_keys fs') = set (dict_keys fs) \<union> {n. (n, Infer) \<in> set items}"
proof (induction ff fbn items fs log rule: model_infer_loop.induct)
  case (1 ff fbn fs log)
  then show ?case by simp
next
  case (2 ff fbn nm v rest fs log)
  show ?case
  proof (cases "v = Infer")
    case False
    with 2 show ?thesis by auto
  next
    case True
    from 2(3) True obtain field s where
      f: "dict_get fbn nm = Some field" and s: "ff (MF field) = Inr s"
      and run: "model_infer_loop ff fbn rest (dict_set fs nm s) (log @ [(nm, MF field)]) = (Inr fs', log')"
      by (auto split: option.splits sum.splits)
    from 2(1) [OF True f s run] show ?thesis
      using True f by (auto simp: dict_keys_dict_set)
  qed
qed

lemma model_default_loop_calls:
  "model_default_loop ff items fs log = (Inr fs', log') \<Longrightarrow> distinct (map fst items) \<Longrightarrow>
     set log' = set log \<union>
       {(n, MF f) | n f. (n, f) \<in> set items \<and> n \<notin> set (dict_keys fs)
          \<and> \<not> auto_created f \<and> fdefault f = NOT_PROVIDED}"
proof (induction ff items fs log rule: model_default_loop.induct)
  case (1 ff fs log)
  then show ?case by simp
next
  case (2 ff nm field rest fs log)
  let ?c = "nm \<notin> set (dict_keys fs) \<and> \<not> auto_created field \<and> fdefault field = NOT_PROVIDED"
  have nm: "\<And>f. (nm, f) \<notin> set rest"
    using 2(4) by (auto simp: image_iff)
  show ?case
  proof (cases ?c)
    case False
    with 2(3) have run: "model_default_loop ff rest fs log = (Inr fs', log')" by auto
    have d: "distinct (map fst rest)" using 2(4) by simp
    from 2(2) [OF False run d] show ?thesis
      using False nm by auto
  next
    case True
    with 2(3) obtain s where s: "ff (MF field) = Inr s"
      and run: "model_default_loop ff rest (dict_set fs nm s) (log @ [(nm, MF field)]) = (Inr fs', log')"
      by (auto split: sum.splits)
    have d: "distinct (map fst rest)" using 2(4) by simp
    from 2(1) [OF True s run d] show ?thesis
      using True nm by (auto simp: dict_keys_dict_set)
  qed
qed

lemma from_model_success:
  assumes "from_model ff model kw = (Inr strat, log)"
  obtains fs1 log1 fs2 where
    "issubclass_Model model"
    "model_infer_loop ff (dict_of_fields (concrete_fields model) []) (sorted_items kw) kw []
       = (Inr fs1, log1)"
    "model_default_loop ff (sorted_items (dict_of_fields (concrete_fields model) [])) fs1 log1
       = (Inr fs2, log)"
    "primary_key_loop model fs2 (dict_keys fs2) = Inr strat"
  using assms
  by (auto simp: from_model_def Let_def split: if_splits prod.splits sum.splits)

lemma split_loop_filter:
  "distinct (map fst kw) \<Longrightarrow> set (dict_keys fs) \<inter> fst ` set kw = {} \<Longrightarrow>
   set (dict_keys fkw) \<inter> fst ` set kw = {} \<Longrightarrow>
   split_loop kw fs fkw =
     (fs @ filter (\<lambda>kv. isinstance_SearchStrategy (snd kv)) kw,
      fkw @ filter (\<lambda>kv. \<not> isinstance_SearchStrategy (snd kv)) kw)"
proof (induction kw fs fkw rule: split_loop.induct)
  case (1 fs fkw)
  then show ?case by simp
next
  case (2 k v rest fs fkw)
  have k1: "k \<notin> set (dict_keys fs)" and k2: "k \<notin> set (dict_keys fkw)"
    using 2(4,5) by auto
  have d: "distinct (map fst rest)" and kr: "k \<notin> fst ` set rest"
    using 2(3) by auto
  show ?case
  proof (cases "isinstance_SearchStrategy v")
    case True
    have a: "set (dict_keys (dict_set fs k v)) \<inter> fst ` set rest = {}"
      using 2(4) kr by (auto simp: dict_keys_dict_set)
    have b: "set (dict_keys fkw) \<inter> fst ` set rest = {}"
      using 2(5) by auto
    from 2(1) [OF True d a b] show ?thesis
      using True by (simp add: dict_set_append [OF k1])
  next
    case False
    have a: "set (dict_keys fs) \<inter> fst ` set rest = {}"
      using 2(4) by auto
    have b: "set (dict_keys (dict_set fkw k v)) \<inter> fst ` set rest = {}"
      using 2(5) kr by (auto simp: dict_keys_dict_set)
    from 2(2) [OF False d a b] show ?thesis
      using False by (simp add: dict_set_append [OF k2])
  qed
qed

lemma split_loop_distinct:
  "distinct (map fst kw) \<Longrightarrow>
   split_loop kw [] [] =
     (filter (\<lambda>kv. isinstance_SearchStrategy (snd kv)) kw,
      filter (\<lambda>kv. \<not> isinstance_SearchStrategy (snd kv)) kw)"
  using split_loop_filter [of kw "[]" "[]"] by (simp add: dict_keys_def)

lemma dict_set_values:
  "set (dict_set d k v) \<subseteq> insert (k, v) (set d)"
  by (induction d) (auto split: if_splits)

lemma split_loop_strategies:
  "split_loop kw fs fkw = (fs', fkw') \<Longrightarrow>
     (\<forall>kv \<in> set fs. isinstance_SearchStrategy (snd kv)) \<Longrightarrow>
     (\<forall>kv \<in> set fs'. isinstance_SearchStrategy (snd kv))
     \<and> set (dict_keys fs') =
         set (dict_keys fs) \<union> {k. \<exists>v. (k, v) \<in> set kw \<and> isinstance_SearchStrategy v}"
proof (induction kw fs fkw rule: split_loop.induct)
  case (1 fs fkw)
  then show ?case by simp
next
  case (2 k v rest fs fkw)
  show ?case
  proof (cases "isinstance_SearchStrategy v")
    case True
    with 2(3) have run: "split_loop rest (dict_set fs k v) fkw = (fs', fkw')" by simp
    have inv: "\<forall>kv \<in> set (dict_set fs k v). isinstance_SearchStrategy (snd kv)"
      using dict_set_values [of fs k v] 2(4) True by auto
    from 2(1) [OF True run inv] show ?thesis
      using True by (auto simp: dict_keys_dict_set)
  next
    case False
    with 2(3) have run: "split_loop rest fs (dict_set fkw k v) = (fs', fkw')" by simp
    from 2(2) [OF False run 2(4)] show ?thesis
      using False by auto
  qed
qed

lemma form_infer_loop_dead:
  "\<forall>kv \<in> set items. isinstance_SearchStrategy (snd kv) \<Longrightarrow>
     form_infer_loop ff fbn items fs log = (Inr fs, log)"
  by (induction ff fbn items fs log rule: form_infer_loop.induct) auto

lemma form_default_loop_calls:
  "form_default_loop ff items fs log = (Inr fs', log') \<Longrightarrow> distinct (map fst items) \<Longrightarrow>
     set log' = set log \<union>
       {(n, FF f) | n f. (n, f) \<in> set items \<and> n \<notin> set (dict_keys fs) \<and> \<not> disabled f}"
proof (induction ff items fs log rule: form_default_loop.induct)
  case (1 ff fs log)
  then show ?case by simp
next
  case (2 ff nm field rest fs log)
  let ?c = "nm \<notin> set (dict_keys fs) \<and> \<not> disabled field"
  have nm: "\<And>f. (nm, f) \<notin> set rest"
    using 2(4) by (auto simp: image_iff)
  have d: "distinct (map fst rest)" using 2(4) by simp
  show ?case
  proof (cases ?c)
    case False
    with 2(3) have run: "form_default_loop ff rest fs log = (Inr fs', log')" by auto
    from 2(2) [OF False run d] show ?thesis
      using False nm by auto
  next
    case True
    with 2(3) obtain s where s: "ff (FF field) = Inr s"
      and run: "form_default_loop ff rest (dict_set fs nm s) (log @ [(nm, FF field)]) = (Inr fs', log')"
      by (auto split: sum.splits)
    from 2(1) [OF True s run d] show ?thesis
      using True nm by (auto simp: dict_keys_dict_set)
  qed
qed

lemma from_form_success:
  assumes "from_form ff bf form kw = (Inr strat, log)"
  obtains fs fkw fields fs2 where
    "issubclass_BaseForm form"
    "split_loop kw [] [] = (fs, fkw)"
    "bf form fkw = Inr fields"
    "form_default_loop ff (sorted_items fields) fs [] = (Inr fs2, log)"
    "strat = FormsImpl (Builds (FormWrapSub (Some form) (Some fkw)) fs2)"
proof -
  obtain fs fkw where sp: "split_loop kw [] [] = (fs, fkw)"
    by (cases "split_loop kw [] []") auto
  have strat: "\<forall>kv \<in> set fs. isinstance_SearchStrategy (snd kv)"
    using split_loop_strategies [OF sp] by simp
  then have dead: "form_infer_loop ff fields (sorted_items fs) fs [] = (Inr fs, [])" for fields
    by (intro form_infer_loop_dead) (simp add: set_sorted_items)
  from assms sp dead show thesis
    by (auto simp: from_form_def split: if_splits sum.splits prod.splits intro: that)
qed

lemma primary_key_loop_shape:
  "primary_key_loop model fs ks = Inr strat \<Longrightarrow>
     \<exists>target kwargs. strat = ModelsImpl (Builds target kwargs)
       \<and> (target = GetOrCreate model \<or> target = UpdateOrCreate model)"
  by (induction model fs ks rule: primary_key_loop.induct)
     (auto split: sum.splits if_splits option.splits)

lemma from_model_shape:
  assumes "from_model ff model kw = (Inr strat, log)"
  shows "\<exists>target kwargs. strat = ModelsImpl (Builds target kwargs)
       \<and> (target = GetOrCreate model \<or> target = UpdateOrCreate model)"
  using assms by (elim from_model_success) (rule primary_key_loop_shape)
lemma primary_key_loop_get_or_create:
  "\<forall>k \<in> set ks. \<forall>f. get_field model k = Inr f \<longrightarrow> \<not> primary_key f \<Longrightarrow>
     primary_key_loop model fs ks = Inr strat \<Longrightarrow>
     strat = ModelsImpl (Builds (GetOrCreate model) fs)"
  by (induction model fs ks rule: primary_key_loop.induct)
     (auto split: sum.splits if_splits option.splits)

lemma primary_key_loop_update_or_create:
  "\<exists>k \<in> set ks. \<exists>f. get_field model k = Inr f \<and> primary_key f \<Longrightarrow>
     primary_key_loop model fs ks = Inr strat \<Longrightarrow>
     \<exists>k f s. k \<in> set ks \<and> get_field model k = Inr f \<and> primary_key f
       \<and> dict_get fs k = Some s
       \<and> strat = ModelsImpl (Builds (UpdateOrCreate model)
                   (dict_set [(k, s)] ''defaults'' (FixedDictionaries (dict_pop fs k))))"
proof (induction model fs ks rule: primary_key_loop.induct)
  case (1 model fs)
  then show ?case by simp
next
  case (2 model fs field rest)
  from 2(3) obtain f where f: "get_field model field = Inr f"
    by (auto split: sum.splits)
  show ?case
  proof (cases "primary_key f")
    case True
    with 2(3) f show ?thesis
      by (auto split: option.splits simp del: dict_set.simps)
  next
    case False
    with 2(2) f have ex: "\<exists>k \<in> set rest. \<exists>f. get_field model k = Inr f \<and> primary_key f"
      by auto
    from 2(3) f False have run: "primary_key_loop model fs rest = Inr strat"
      by simp
    from 2(1) [OF f False ex run] show ?thesis
      by (auto simp del: dict_set.simps)
  qed
qed

lemma update_or_create_kwargs:
  "k \<noteq> ''defaults'' \<Longrightarrow> dict_set [(k, s)] ''defaults'' d = [(k, s), (''defaults'', d)]"
  by simp
lemma from_model_dispatch:
  assumes "from_model ff model kw = (Inr strat, log)"
  shows "\<exists>fs.
     (\<forall>k \<in> set (dict_keys fs). \<forall>f. get_field model k = Inr f \<longrightarrow> \<not> primary_key f)
       \<and> strat = ModelsImpl (Builds (GetOrCreate model) fs)
     \<or> (\<exists>k f s. k \<in> set (dict_keys fs) \<and> get_field model k = Inr f \<and> primary_key f
           \<and> dict_get fs k = Some s
           \<and> strat = ModelsImpl (Builds (UpdateOrCreate model)
                (dict_set [(k, s)] ''defaults'' (FixedDictionaries (dict_pop fs k)))))"
proof -
  from assms obtain fs2 where
    loop: "primary_key_loop model fs2 (dict_keys fs2) = Inr strat"
    by (rule from_model_success)
  show ?thesis
  proof (cases "\<exists>k \<in> set (dict_keys fs2). \<exists>f. get_field model k = Inr f \<and> primary_key f")
    case True
    from primary_key_loop_update_or_create [OF True loop] show ?thesis
      by blast
  next
    case False
    then have "\<forall>k \<in> set (dict_keys fs2). \<forall>f. get_field model k = Inr f \<longrightarrow> \<not> primary_key f"
      by blast
    from this primary_key_loop_get_or_create [OF this loop] show ?thesis
      by blast
  qed
qed
lemma dict_get_dict_set:
  "dict_get (dict_set d k v) k' = (if k' = k then Some v else dict_get d k')"
  by (induction d) (auto simp: dict_get_def)

lemma dict_get_None: "dict_get d k = None \<longleftrightarrow> k \<notin> set (dict_keys d)"
  by (simp add: dict_get_def dict_keys_def map_of_eq_None_iff)

lemma model_infer_loop_entries:
  "model_infer_loop ff fbn items fs log = (Inr fs', log') \<Longrightarrow>
     (\<forall>n. (n, Infer) \<in> set items \<longrightarrow>
        (\<exists>f s. dict_get fbn n = Some f \<and> ff (MF f) = Inr s \<and> dict_get fs' n = Some s))
     \<and> (\<forall>n. (n, Infer) \<notin> set items \<longrightarrow> dict_get fs' n = dict_get fs n)"
proof (induction ff fbn items fs log rule: model_infer_loop.induct)
  case (1 ff fbn fs log)
  then show ?case by simp
next
  case (2 ff fbn nm v rest fs log)
  show ?case
  proof (cases "v = Infer")
    case False
    with 2(3) have run: "model_infer_loop ff fbn rest fs log = (Inr fs', log')" by simp
    from 2(2) [OF False run] False show ?thesis by auto
  next
    case True
    from 2(3) True obtain field s where
      f: "dict_get fbn nm = Some field" and s: "ff (MF field) = Inr s"
      and run: "model_infer_loop ff fbn rest (dict_set fs nm s) (log @ [(nm, MF field)]) = (Inr fs', log')"
      by (auto split: option.splits sum.splits)
    note IH = 2(1) [OF True f s run]
    have "\<exists>f s. dict_get fbn n = Some f \<and> ff (MF f) = Inr s \<and> dict_get fs' n = Some s"
      if "(n, Infer) \<in> set ((nm, v) # rest)" for n
    proof (cases "(n, Infer) \<in> set rest")
      case True
      with IH show ?thesis by blast
    next
      case False
      with that have n: "n = nm" by auto
      from IH False have "dict_get fs' n = dict_get (dict_set fs nm s) n" by blast
      with n f s show ?thesis by (simp add: dict_get_dict_set)
    qed
    moreover have "dict_get fs' n = dict_get fs n" if "(n, Infer) \<notin> set ((nm, v) # rest)" for n
    proof -
      from that True have "n \<noteq> nm" "(n, Infer) \<notin> set rest" by auto
      with IH show ?thesis by (simp add: dict_get_dict_set)
    qed
    ultimately show ?thesis by blast
  qed
qed

lemma model_default_loop_entries:
  "model_default_loop ff items fs log = (Inr fs', log') \<Longrightarrow> distinct (map fst items) \<Longrightarrow>
     (\<forall>n f. (n, f) \<in> set items \<and> n \<notin> set (dict_keys fs) \<and> \<not> auto_created f
               \<and> fdefault f = NOT_PROVIDED \<longrightarrow>
        (\<exists>s. ff (MF f) = Inr s \<and> dict_get fs' n = Some s))
     \<and> (\<forall>n. \<not> (\<exists>f. (n, f) \<in> set items \<and> n \<notin> set (dict_keys fs) \<and> \<not> auto_created f
               \<and> fdefault f = NOT_PROVIDED) \<longrightarrow> dict_get fs' n = dict_get fs n)"
proof (induction ff items fs log rule: model_default_loop.induct)
  case (1 ff fs log)
  then show ?case by simp
next
  case (2 ff nm field rest fs log)
  let ?c = "nm \<notin> set (dict_keys fs) \<and> \<not> auto_created field \<and> fdefault field = NOT_PROVIDED"
  have nm: "\<And>f. (nm, f) \<notin> set rest"
    using 2(4) by (auto simp: image_iff)
  have d: "distinct (map fst rest)" using 2(4) by simp
  show ?case
  proof (cases ?c)
    case False
    with 2(3) have run: "model_default_loop ff rest fs log = (Inr fs', log')" by auto
    from 2(2) [OF False run d] show ?thesis
      using False nm by auto
  next
    case True
    with 2(3) obtain s where s: "ff (MF field) = Inr s"
      and run: "model_default_loop ff rest (dict_set fs nm s) (log @ [(nm, MF field)]) = (Inr fs', log')"
      by (auto split: sum.splits)
    note IH = 2(1) [OF True s run d]
    have keys: "n \<notin> set (dict_keys (dict_set fs nm s)) \<longleftrightarrow> n \<notin> set (dict_keys fs)"
      if "n \<noteq> nm" for n
      using that by (auto simp: dict_keys_dict_set)
    have nm_get: "dict_get fs' nm = Some s"
    proof -
      from IH nm have "dict_get fs' nm = dict_get (dict_set fs nm s) nm" by blast
      then show ?thesis by (simp add: dict_get_dict_set)
    qed
    have "\<exists>s'. ff (MF f) = Inr s' \<and> dict_get fs' n = Some s'"
      if "(n, f) \<in> set ((nm, field) # rest)" "n \<notin> set (dict_keys fs)" "\<not> auto_created f"
         "fdefault f = NOT_PROVIDED" for n f
    proof (cases "n = nm")
      case True
      with that nm have "f = field" by auto
      with True s nm_get show ?thesis by simp
    next
      case False
      with that have "(n, f) \<in> set rest" by auto
      with IH that keys [OF False] show ?thesis by blast
    qed
    moreover have "dict_get fs' n = dict_get fs n"
      if "\<not> (\<exists>f. (n, f) \<in> set ((nm, field) # rest) \<and> n \<notin> set (dict_keys fs) \<and> \<not> auto_created f
               \<and> fdefault f = NOT_PROVIDED)" for n
    proof -
      from that True have ne: "n \<noteq> nm" by auto
      from that have "\<not> (\<exists>f. (n, f) \<in> set rest \<and> n \<notin> set (dict_keys (dict_set fs nm s))
            \<and> \<not> auto_created f \<and> fdefault f = NOT_PROVIDED)"
        using keys [OF ne] by auto
      with IH have "dict_get fs' n = dict_get (dict_set fs nm s) n" by blast
      with ne show ?thesis by (simp add: dict_get_dict_set)
    qed
    ultimately show ?thesis by blast
  qed
qed

lemma form_default_loop_entries:
  "form_default_loop ff items fs log = (Inr fs', log') \<Longrightarrow> distinct (map fst items) \<Longrightarrow>
     (\<forall>n f. (n, f) \<in> set items \<and> n \<notin> set (dict_keys fs) \<and> \<not> disabled f \<longrightarrow>
        (\<exists>s. ff (FF f) = Inr s \<and> dict_get fs' n = Some s))
     \<and> (\<forall>n. \<not> (\<exists>f. (n, f) \<in> set items \<and> n \<notin> set (dict_keys fs) \<and> \<not> disabled f)
          \<longrightarrow> dict_get fs' n = dict_get fs n)"
proof (induction ff items fs log rule: form_default_loop.induct)
  case (1 ff fs log)
  then show ?case by simp
next
  case (2 ff nm field rest fs log)
  let ?c = "nm \<notin> set (dict_keys fs) \<and> \<not> disabled field"
  have nm: "\<And>f. (nm, f) \<notin> set rest"
    using 2(4) by (auto simp: image_iff)
  have d: "distinct (map fst rest)" using 2(4) by simp
  show ?case
  proof (cases ?c)
    case False
    with 2(3) have run: "form_default_loop ff rest fs log = (Inr fs', log')" by auto
    from 2(2) [OF False run d] show ?thesis
      using False nm by auto
  next
    case True
    with 2(3) obtain s where s: "ff (FF field) = Inr s"
      and run: "form_default_loop ff rest (dict_set fs nm s) (log @ [(nm, FF field)]) = (Inr fs', log')"
      by (auto split: sum.splits)
    note IH = 2(1) [OF True s run d]
    have keys: "n \<notin> set (dict_keys (dict_set fs nm s)) \<longleftrightarrow> n \<notin> set (dict_keys fs)"
      if "n \<noteq> nm" for n
      using that by (auto simp: dict_keys_dict_set)
    have nm_get: "dict_get fs' nm = Some s"
    proof -
      from IH nm have "dict_get fs' nm = dict_get (dict_set fs nm s) nm" by blast
      then show ?thesis by (simp add: dict_get_dict_set)
    qed
    have "\<exists>s'. ff (FF f) = Inr s' \<and> dict_get fs' n = Some s'"
      if "(n, f) \<in> set ((nm, field) # rest)" "n \<notin> set (dict_keys fs)" "\<not> disabled f" for n f
    proof (cases "n = nm")
      case True
      with that nm have "f = field" by auto
      with True s nm_get show ?thesis by simp
    next
      case False
      with that have "(n, f) \<in> set rest" by auto
      with IH that keys [OF False] show ?thesis by blast
    qed
    moreover have "dict_get fs' n = dict_get fs n"
      if "\<not> (\<exists>f. (n, f) \<in> set ((nm, field) # rest) \<and> n \<notin> set (dict_keys fs) \<and> \<not> disabled f)"
      for n
    proof -
      from that True have ne: "n \<noteq> nm" by auto
      from that have "\<not> (\<exists>f. (n, f) \<in> set rest \<and> n \<notin> set (dict_keys (dict_set fs nm s))
            \<and> \<not> disabled f)"
        using keys [OF ne] by auto
      with IH have "dict_get fs' n = dict_get (dict_set fs nm s) n" by blast
      with ne show ?thesis by (simp add: dict_get_dict_set)
    qed
    ultimately show ?thesis by blast
  qed
qed

lemma from_model_field_strategies:
  "issubclass_Model model \<Longrightarrow>
     from_model ff model kw =
       (case model_field_strategies ff model kw of
          (Inl e, log) \<Rightarrow> (Inl e, log)
        | (Inr fs, log) \<Rightarrow> (primary_key_loop model fs (dict_keys fs), log))"
  by (simp add: from_model_def model_field_strategies_def Let_def
      split: prod.splits sum.splits)

lemma from_form_field_strategies:
  "issubclass_BaseForm form \<Longrightarrow>
     from_form ff bf form kw =
       (case form_field_strategies ff bf form kw of
          (Inl e, log) \<Rightarrow> (Inl e, log)
        | (Inr fs, log) \<Rightarrow>
            (Inr (FormsImpl (Builds
               (FormWrapSub (Some form) (Some (snd (split_loop kw [] [])))) fs)), log))"
  by (simp add: from_form_def form_field_strategies_def split: prod.splits sum.splits)
lemma model_field_strategies_success:
  assumes "model_field_strategies ff model kw = (Inr fs, log)"
  obtains fs1 log1 where
    "model_infer_loop ff (dict_of_fields (concrete_fields model) []) (sorted_items kw) kw []
       = (Inr fs1, log1)"
    "model_default_loop ff (sorted_items (dict_of_fields (concrete_fields model) [])) fs1 log1
       = (Inr fs, log)"
  using assms
  by (auto simp: model_field_strategies_def Let_def split: prod.splits sum.splits)
lemma form_field_strategies_success:
  assumes "form_field_strategies ff bf form kw = (Inr fs2, log)"
  obtains fs fkw flds where
    "split_loop kw [] [] = (fs, fkw)"
    "bf form fkw = Inr flds"
    "form_default_loop ff (sorted_items flds) fs [] = (Inr fs2, log)"
proof -
  obtain fs fkw where sp: "split_loop kw [] [] = (fs, fkw)"
    by (cases "split_loop kw [] []") auto
  have strat: "\<forall>kv \<in> set fs. isinstance_SearchStrategy (snd kv)"
    using split_loop_strategies [OF sp] by simp
  then have dead: "form_infer_loop ff flds (sorted_items fs) fs [] = (Inr fs, [])" for flds
    by (intro form_infer_loop_dead) (simp add: set_sorted_items)
  from assms sp dead show thesis
    by (auto simp: form_field_strategies_def split: sum.splits prod.splits intro: that)
qed

section \<open>The store: what a call changes, and what it returns\<close>

definition same_but :: "nat set \<Rightarrow> heap \<Rightarrow> heap \<Rightarrow> bool" where
  "same_but A h h' \<longleftrightarrow>
     FormWrap_attrs h' = FormWrap_attrs h \<and> length (dicts h') = length (dicts h)
     \<and> (\<forall>b. b \<notin> A \<longrightarrow> dicts h' ! b = dicts h ! b)"

lemma same_but_refl: "same_but A h h"
  by (simp add: same_but_def)

lemma same_but_trans: "same_but A h h1 \<Longrightarrow> same_but A h1 h2 \<Longrightarrow> same_but A h h2"
  by (simp add: same_but_def)

lemma same_but_mono: "same_but A h h' \<Longrightarrow> A \<subseteq> B \<Longrightarrow> same_but B h h'"
  by (auto simp: same_but_def)

lemma same_but_setitem: "a \<in> A \<Longrightarrow> same_but A h (setitem h a k v)"
  by (auto simp: same_but_def setitem_def intro!: nth_list_update_neq)

lemma same_but_popitem: "a \<in> A \<Longrightarrow> same_but A h (popitem h a k)"
  by (auto simp: same_but_def popitem_def intro!: nth_list_update_neq)

lemma length_setitem: "length (dicts (setitem h a k v)) = length (dicts h)"
  by (simp add: setitem_def)

lemma getd_setitem_same:
  "a < length (dicts h) \<Longrightarrow> getd (setitem h a k v) a = dict_set (getd h a) k v"
  by (simp add: getd_def setitem_def)

lemma getd_setitem_other: "b \<noteq> a \<Longrightarrow> getd (setitem h a k v) b = getd h b"
  by (simp add: getd_def setitem_def)

lemma model_infer_loop_st_refines:
  "a < length (dicts h) \<Longrightarrow>
     (case model_infer_loop_st ff fbn items a log h of
        ((r, log'), h') \<Rightarrow>
          same_but {a} h h'
          \<and> (case model_infer_loop ff fbn items (getd h a) log of
                (Inl e, l) \<Rightarrow> r = Some e \<and> log' = l
              | (Inr fs', l) \<Rightarrow> r = None \<and> log' = l \<and> getd h' a = fs'))"
proof (induction ff fbn items a log h rule: model_infer_loop_st.induct)
  case (1 ff fbn a log h)
  then show ?case by (simp add: same_but_refl)
next
  case (2 ff fbn nm v rest a log h)
  show ?case
  proof (cases "v = Infer")
    case False
    with 2(2) [OF False 2(3)] show ?thesis by simp
  next
    case True
    show ?thesis
    proof (cases "dict_get fbn nm")
      case None
      with True show ?thesis by (simp add: same_but_refl)
    next
      case (Some field)
      show ?thesis
      proof (cases "ff (MF field)")
        case (Inl e)
        with True Some show ?thesis by (simp add: same_but_refl)
      next
        case (Inr s)
        have len: "a < length (dicts (setitem h a nm s))"
          using 2(3) by (simp add: length_setitem)
        have step: "same_but {a} h (setitem h a nm s)"
          by (simp add: same_but_setitem)
        from 2(1) [OF True Some Inr len] True Some Inr step show ?thesis
          by (auto simp: getd_setitem_same [OF 2(3)] split: prod.splits sum.splits
              intro: same_but_trans)
      qed
    qed
  qed
qed

lemma model_default_loop_st_refines:
  "a < length (dicts h) \<Longrightarrow>
     (case model_default_loop_st ff items a log h of
        ((r, log'), h') \<Rightarrow>
          same_but {a} h h'
          \<and> (case model_default_loop ff items (getd h a) log of
                (Inl e, l) \<Rightarrow> r = Some e \<and> log' = l
              | (Inr fs', l) \<Rightarrow> r = None \<and> log' = l \<and> getd h' a = fs'))"
proof (induction ff items a log h rule: model_default_loop_st.induct)
  case (1 ff a log h)
  then show ?case by (simp add: same_but_refl)
next
  case (2 ff nm field rest a log h)
  let ?c = "nm \<notin> set (dict_keys (getd h a)) \<and> \<not> auto_created field
              \<and> fdefault field = NOT_PROVIDED"
  show ?case
  proof (cases ?c)
    case False
    with 2(2) [OF False 2(3)] show ?thesis by auto
  next
    case True
    show ?thesis
    proof (cases "ff (MF field)")
      case (Inl e)
      with True show ?thesis by (simp add: same_but_refl)
    next
      case (Inr s)
      have len: "a < length (dicts (setitem h a nm s))"
        using 2(3) by (simp add: length_setitem)
      have step: "same_but {a} h (setitem h a nm s)"
        by (simp add: same_but_setitem)
      from 2(1) [OF True Inr len] True Inr step show ?thesis
        by (auto simp: getd_setitem_same [OF 2(3)] split: prod.splits sum.splits
            intro: same_but_trans)
    qed
  qed
qed

lemma form_infer_loop_st_refines:
  "a < length (dicts h) \<Longrightarrow>
     (case form_infer_loop_st ff fbn items a log h of
        ((r, log'), h') \<Rightarrow>
          same_but {a} h h'
          \<and> (case form_infer_loop ff fbn items (getd h a) log of
                (Inl e, l) \<Rightarrow> r = Some e \<and> log' = l
              | (Inr fs', l) \<Rightarrow> r = None \<and> log' = l \<and> getd h' a = fs'))"
proof (induction ff fbn items a log h rule: form_infer_loop_st.induct)
  case (1 ff fbn a log h)
  then show ?case by (simp add: same_but_refl)
next
  case (2 ff fbn nm v rest a log h)
  show ?case
  proof (cases "v = Infer")
    case False
    with 2(2) [OF False 2(3)] show ?thesis by simp
  next
    case True
    show ?thesis
    proof (cases "dict_get fbn nm")
      case None
      with True show ?thesis by (simp add: same_but_refl)
    next
      case (Some field)
      show ?thesis
      proof (cases "ff (FF field)")
        case (Inl e)
        with True Some show ?thesis by (simp add: same_but_refl)
      next
        case (Inr s)
        have len: "a < length (dicts (setitem h a nm s))"
          using 2(3) by (simp add: length_setitem)
        have step: "same_but {a} h (setitem h a nm s)"
          by (simp add: same_but_setitem)
        from 2(1) [OF True Some Inr len] True Some Inr step show ?thesis
          by (auto simp: getd_setitem_same [OF 2(3)] split: prod.splits sum.splits
              intro: same_but_trans)
      qed
    qed
  qed
qed

lemma form_default_loop_st_refines:
  "a < length (dicts h) \<Longrightarrow>
     (case form_default_loop_st ff items a log h of
        ((r, log'), h') \<Rightarrow>
          same_but {a} h h'
          \<and> (case form_default_loop ff items (getd h a) log of
                (Inl e, l) \<Rightarrow> r = Some e \<and> log' = l
              | (Inr fs', l) \<Rightarrow> r = None \<and> log' = l \<and> getd h' a = fs'))"
proof (induction ff items a log h rule: form_default_loop_st.induct)
  case (1 ff a log h)
  then show ?case by (simp add: same_but_refl)
next
  case (2 ff nm field rest a log h)
  let ?c = "nm \<notin> set (dict_keys (getd h a)) \<and> \<not> disabled field"
  show ?case
  proof (cases ?c)
    case False
    with 2(2) [OF False 2(3)] show ?thesis by auto
  next
    case True
    show ?thesis
    proof (cases "ff (FF field)")
      case (Inl e)
      with True show ?thesis by (simp add: same_but_refl)
    next
      case (Inr s)
      have len: "a < length (dicts (setitem h a nm s))"
        using 2(3) by (simp add: length_setitem)
      have step: "same_but {a} h (setitem h a nm s)"
        by (simp add: same_but_setitem)
      from 2(1) [OF True Inr len] True Inr step show ?thesis
        by (auto simp: getd_setitem_same [OF 2(3)] split: prod.splits sum.splits
            intro: same_but_trans)
    qed
  qed
qed

lemma split_loop_st_refines:
  "a < length (dicts h) \<Longrightarrow> b < length (dicts h) \<Longrightarrow> a \<noteq> b \<Longrightarrow>
     same_but {a, b} h (split_loop_st items a b h)
     \<and> (getd (split_loop_st items a b h) a, getd (split_loop_st items a b h) b)
         = split_loop items (getd h a) (getd h b)"
proof (induction items a b h rule: split_loop_st.induct)
  case (1 a b h)
  then show ?case by (simp add: same_but_refl)
next
  case (2 k v rest a b h)
  show ?case
  proof (cases "isinstance_SearchStrategy v")
    case True
    have len: "a < length (dicts (setitem h a k v))" "b < length (dicts (setitem h a k v))"
      using 2(3,4) by (simp_all add: length_setitem)
    have step: "same_but {a, b} h (setitem h a k v)"
      by (simp add: same_but_setitem)
    from 2(1) [OF True len 2(5)] True step 2(5) show ?thesis
      by (auto simp: getd_setitem_same [OF 2(3)] getd_setitem_other intro: same_but_trans)
  next
    case False
    have len: "a < length (dicts (setitem h b k v))" "b < length (dicts (setitem h b k v))"
      using 2(3,4) by (simp_all add: length_setitem)
    have step: "same_but {a, b} h (setitem h b k v)"
      by (simp add: same_but_setitem)
    from 2(2) [OF False len 2(5)] False step 2(5) show ?thesis
      by (auto simp: getd_setitem_same [OF 2(4)] getd_setitem_other intro: same_but_trans)
  qed
qed

definition preserved :: "heap \<Rightarrow> heap \<Rightarrow> bool" where
  "preserved h h' \<longleftrightarrow>
     FormWrap_attrs h' = FormWrap_attrs h \<and> length (dicts h) \<le> length (dicts h')
     \<and> (\<forall>a < length (dicts h). dicts h' ! a = dicts h ! a)"

lemma preserved_refl: "preserved h h"
  by (simp add: preserved_def)

lemma preserved_trans: "preserved h h1 \<Longrightarrow> preserved h1 h2 \<Longrightarrow> preserved h h2"
  by (auto simp: preserved_def)

lemma preserved_new_dict:
  "new_dict d h = (a, h0) \<Longrightarrow>
     preserved h h0 \<and> a = length (dicts h) \<and> a < length (dicts h0) \<and> getd h0 a = d"
  by (auto simp: new_dict_def preserved_def getd_def nth_append)

lemma preserved_same_but:
  "preserved h h0 \<Longrightarrow> same_but A h0 h1 \<Longrightarrow> \<forall>a \<in> A. length (dicts h) \<le> a \<Longrightarrow>
     preserved h h1"
  unfolding preserved_def same_but_def
  by (metis leD)

lemma primary_key_loop_st_refines:
  "a < length (dicts h) \<Longrightarrow>
     (case primary_key_loop_st model a ks h of
        (r, h') \<Rightarrow>
          r = primary_key_loop model (getd h a) ks
          \<and> FormWrap_attrs h' = FormWrap_attrs h \<and> length (dicts h) \<le> length (dicts h')
          \<and> (\<forall>b < length (dicts h). b \<noteq> a \<longrightarrow> dicts h' ! b = dicts h ! b))"
proof (induction model a ks h rule: primary_key_loop_st.induct)
  case (1 model a h)
  then show ?case by simp
next
  case (2 model a field rest h)
  show ?case
  proof (cases "get_field model field")
    case (Inl e)
    then show ?thesis by simp
  next
    case (Inr f)
    show ?thesis
    proof (cases "primary_key f")
      case False
      with 2(1) [OF Inr False 2(2)] Inr show ?thesis by simp
    next
      case True
      show ?thesis
      proof (cases "dict_get (getd h a) field")
        case None
        with Inr True show ?thesis by simp
      next
        case (Some s)
        let ?k = "length (dicts h)"
        let ?h1 = "(popitem h a field)\<lparr>dicts := dicts (popitem h a field) @ [[(field, s)]]\<rparr>"
        let ?h2 = "setitem ?h1 ?k ''defaults'' (FixedDictionaries (getd ?h1 a))"
        have nd: "new_dict [(field, s)] (popitem h a field) = (?k, ?h1)"
          by (simp add: new_dict_def popitem_def)
        have ga: "getd ?h1 a = dict_pop (getd h a) field"
          using 2(2) by (simp add: getd_def popitem_def nth_append)
        have gk: "getd ?h2 ?k =
            dict_set [(field, s)] ''defaults'' (FixedDictionaries (dict_pop (getd h a) field))"
          using ga by (simp add: getd_def setitem_def popitem_def nth_append
              del: dict_set.simps)
        have fr: "FormWrap_attrs ?h2 = FormWrap_attrs h" "length (dicts h) \<le> length (dicts ?h2)"
          "\<forall>b < length (dicts h). b \<noteq> a \<longrightarrow> dicts ?h2 ! b = dicts h ! b"
          by (auto simp: setitem_def popitem_def nth_append)
        from Inr True Some nd gk fr show ?thesis
          by (simp add: Let_def del: dict_set.simps)
      qed
    qed
  qed
qed

lemma same_but_length: "same_but A h h' \<Longrightarrow> length (dicts h') = length (dicts h)"
  by (simp add: same_but_def)

lemma from_model_st_refines:
  "(case from_model_st ff model kw h of
      (r, h') \<Rightarrow> r = from_model ff model kw \<and> preserved h h')"
proof -
  let ?a = "length (dicts h)"
  let ?h0 = "h\<lparr>dicts := dicts h @ [kw]\<rparr>"
  let ?fbn = "dict_of_fields (concrete_fields model) []"
  have nd: "new_dict kw h = (?a, ?h0)"
    by (simp add: new_dict_def)
  from preserved_new_dict [OF nd] have
    p0: "preserved h ?h0" and a0: "?a < length (dicts ?h0)" and g0: "getd ?h0 ?a = kw"
    by simp_all
  show ?thesis
  proof (cases "isclass model \<and> issubclass_Model model")
    case False
    with nd p0 show ?thesis
      by (auto simp: from_model_st_def from_model_def)
  next
    case True
    obtain r1 log1 h1 where
      l1: "model_infer_loop_st ff ?fbn (sorted_items kw) ?a [] ?h0 = ((r1, log1), h1)"
      by (metis prod.exhaust)
    from model_infer_loop_st_refines [OF a0, of ff ?fbn "sorted_items kw" "[]"] l1 have
      f1: "same_but {?a} ?h0 h1" and
      c1: "(case model_infer_loop ff ?fbn (sorted_items kw) kw [] of
              (Inl e, l) \<Rightarrow> r1 = Some e \<and> log1 = l
            | (Inr fs', l) \<Rightarrow> r1 = None \<and> log1 = l \<and> getd h1 ?a = fs')"
      by (simp_all add: g0)
    have p1: "preserved h h1"
      using p0 f1 by (rule preserved_same_but) simp
    have a1: "?a < length (dicts h1)"
      using a0 same_but_length [OF f1] by simp
    obtain x1 m1 where pure1: "model_infer_loop ff ?fbn (sorted_items kw) kw [] = (x1, m1)"
      by (metis prod.exhaust)
    show ?thesis
    proof (cases x1)
      case (Inl e)
      with c1 pure1 have "r1 = Some e" "log1 = m1" by simp_all
      with True nd l1 pure1 Inl p1 show ?thesis
        by (simp add: from_model_st_def from_model_def g0)
    next
      case (Inr fs1)
      with c1 pure1 have r1: "r1 = None" "log1 = m1" "getd h1 ?a = fs1" by simp_all
      obtain r2 log2 h2 where
        l2: "model_default_loop_st ff (sorted_items ?fbn) ?a log1 h1 = ((r2, log2), h2)"
        by (metis prod.exhaust)
      from model_default_loop_st_refines [OF a1, of ff "sorted_items ?fbn" log1] l2 have
        f2: "same_but {?a} h1 h2" and
        c2: "(case model_default_loop ff (sorted_items ?fbn) fs1 m1 of
                (Inl e, l) \<Rightarrow> r2 = Some e \<and> log2 = l
              | (Inr fs', l) \<Rightarrow> r2 = None \<and> log2 = l \<and> getd h2 ?a = fs')"
        by (simp_all add: r1)
      have p2: "preserved h h2"
        using p1 f2 by (rule preserved_same_but) simp
      have a2: "?a < length (dicts h2)"
        using a1 same_but_length [OF f2] by simp
      obtain x2 m2 where pure2: "model_default_loop ff (sorted_items ?fbn) fs1 m1 = (x2, m2)"
        by (metis prod.exhaust)
      show ?thesis
      proof (cases x2)
        case (Inl e)
        with c2 pure2 have "r2 = Some e" "log2 = m2" by simp_all
        with True nd l1 pure1 Inr r1 l2 pure2 Inl p2 show ?thesis
          by (simp add: from_model_st_def from_model_def g0)
      next
        case (Inr fs2)
        with c2 pure2 have r2: "r2 = None" "log2 = m2" "getd h2 ?a = fs2" by simp_all
        obtain r3 h3 where
          l3: "primary_key_loop_st model ?a (dict_keys fs2) h2 = (r3, h3)"
          by (metis prod.exhaust)
        from primary_key_loop_st_refines [OF a2, of model "dict_keys fs2"] l3 have
          c3: "r3 = primary_key_loop model fs2 (dict_keys fs2)" and
          f3: "FormWrap_attrs h3 = FormWrap_attrs h2" "length (dicts h2) \<le> length (dicts h3)"
            "\<forall>b < length (dicts h2). b \<noteq> ?a \<longrightarrow> dicts h3 ! b = dicts h2 ! b"
          by (simp_all add: r2)
        have p3: "preserved h h3"
          using p2 f3 unfolding preserved_def
          by (metis (no_types, lifting) le_trans less_le_trans nat_neq_iff)
        from True nd l1 pure1 \<open>x1 = Inr fs1\<close> r1 l2 pure2 Inr r2 l3 c3 p3 show ?thesis
          by (simp add: from_model_st_def from_model_def g0)
      qed
    qed
  qed
qed

lemma from_form_st_refines:
  "(case from_form_st ff bf form kw h of
      (r, h') \<Rightarrow> r = from_form ff bf form kw \<and> preserved h h')"
proof -
  let ?a0 = "length (dicts h)"
  let ?a1 = "Suc (length (dicts h))"
  let ?a2 = "Suc (Suc (length (dicts h)))"
  let ?h0 = "h\<lparr>dicts := dicts h @ [kw]\<rparr>"
  let ?h1 = "h\<lparr>dicts := dicts h @ [kw, []]\<rparr>"
  let ?h2 = "h\<lparr>dicts := dicts h @ [kw, [], []]\<rparr>"
  have nd0: "new_dict kw h = (?a0, ?h0)"
    and nd1: "new_dict [] ?h0 = (?a1, ?h1)"
    and nd2: "new_dict [] ?h1 = (?a2, ?h2)"
    by (simp_all add: new_dict_def)
  have p0: "preserved h ?h0"
    by (simp add: preserved_def nth_append)
  have p2: "preserved h ?h2"
    by (simp add: preserved_def nth_append)
  have len2: "?a0 < length (dicts ?h2)" "?a1 < length (dicts ?h2)" "?a2 < length (dicts ?h2)"
    by simp_all
  have g2: "getd ?h2 ?a0 = kw" "getd ?h2 ?a1 = []" "getd ?h2 ?a2 = []"
    by (simp_all add: getd_def nth_append)
  show ?thesis
  proof (cases "isclass form \<and> issubclass_BaseForm form")
    case False
    with nd0 p0 show ?thesis
      by (auto simp: from_form_st_def from_form_def)
  next
    case True
    let ?h3 = "split_loop_st kw ?a1 ?a2 ?h2"
    obtain fs fkw where sp: "split_loop kw [] [] = (fs, fkw)"
      by (metis prod.exhaust)
    from split_loop_st_refines [OF len2(2) len2(3), of kw] have
      f3: "same_but {?a1, ?a2} ?h2 ?h3" and
      c3: "getd ?h3 ?a1 = fs" "getd ?h3 ?a2 = fkw"
      by (simp_all add: g2 sp)
    have p3: "preserved h ?h3"
      using p2 f3 by (rule preserved_same_but) simp
    have a3: "?a1 < length (dicts ?h3)"
      using same_but_length [OF f3] by simp
    show ?thesis
    proof (cases "bf form fkw")
      case (Inl e)
      with True nd0 nd1 nd2 sp c3 g2 p3 show ?thesis
        by (simp add: from_form_st_def from_form_def Let_def)
    next
      case (Inr fbn)
      obtain r4 log4 h4 where
        l4: "form_infer_loop_st ff fbn (sorted_items fs) ?a1 [] ?h3 = ((r4, log4), h4)"
        by (metis prod.exhaust)
      from form_infer_loop_st_refines [OF a3, of ff fbn "sorted_items fs" "[]"] l4 have
        f4: "same_but {?a1} ?h3 h4" and
        c4: "(case form_infer_loop ff fbn (sorted_items fs) fs [] of
                (Inl e, l) \<Rightarrow> r4 = Some e \<and> log4 = l
              | (Inr fs', l) \<Rightarrow> r4 = None \<and> log4 = l \<and> getd h4 ?a1 = fs')"
        by (simp_all add: c3)
      have p4: "preserved h h4"
        using p3 f4 by (rule preserved_same_but) simp
      have a4: "?a1 < length (dicts h4)"
        using a3 same_but_length [OF f4] by simp
      have k4: "getd h4 ?a2 = fkw"
        using f4 c3 by (simp add: same_but_def getd_def)
      obtain x4 m4 where pure4: "form_infer_loop ff fbn (sorted_items fs) fs [] = (x4, m4)"
        by (metis prod.exhaust)
      show ?thesis
      proof (cases x4)
        case (Inl e)
        with c4 pure4 have "r4 = Some e" "log4 = m4" by simp_all
        with True nd0 nd1 nd2 sp c3 g2 Inr l4 pure4 Inl p4 show ?thesis
          by (simp add: from_form_st_def from_form_def Let_def)
      next
        case (Inr fs1)
        with c4 pure4 have r4: "r4 = None" "log4 = m4" "getd h4 ?a1 = fs1" by simp_all
        obtain r5 log5 h5 where
          l5: "form_default_loop_st ff (sorted_items fbn) ?a1 log4 h4 = ((r5, log5), h5)"
          by (metis prod.exhaust)
        from form_default_loop_st_refines [OF a4, of ff "sorted_items fbn" log4] l5 have
          f5: "same_but {?a1} h4 h5" and
          c5: "(case form_default_loop ff (sorted_items fbn) fs1 m4 of
                  (Inl e, l) \<Rightarrow> r5 = Some e \<and> log5 = l
                | (Inr fs', l) \<Rightarrow> r5 = None \<and> log5 = l \<and> getd h5 ?a1 = fs')"
          by (simp_all add: r4)
        have p5: "preserved h h5"
          using p4 f5 by (rule preserved_same_but) simp
        have k5: "getd h5 ?a2 = fkw"
          using f5 k4 by (simp add: same_but_def getd_def)
        obtain x5 m5 where pure5: "form_default_loop ff (sorted_items fbn) fs1 m4 = (x5, m5)"
          by (metis prod.exhaust)
        show ?thesis
        proof (cases x5)
          case (Inl e)
          with c5 pure5 have "r5 = Some e" "log5 = m5" by simp_all
          with True nd0 nd1 nd2 sp c3 g2 \<open>bf form fkw = Inr fbn\<close> l4 pure4 \<open>x4 = Inr fs1\<close>
            r4 l5 pure5 Inl p5 show ?thesis
            by (simp add: from_form_st_def from_form_def Let_def)
        next
          case (Inr fs2)
          with c5 pure5 have r5: "r5 = None" "log5 = m5" "getd h5 ?a1 = fs2" by simp_all
          with True nd0 nd1 nd2 sp c3 g2 \<open>bf form fkw = Inr fbn\<close> l4 pure4 \<open>x4 = Inr fs1\<close>
            r4 l5 pure5 Inr k5 p5 show ?thesis
            by (simp add: from_form_st_def from_form_def Let_def)
        qed
      qed
    qed
  qed
qed

lemma run_calls_refines:
  "(case run_calls ff bf cs h of
      (rs, h') \<Rightarrow> rs = map (\<lambda>c. wrapped_strategy ff bf (LazyStrategy c)) cs
        \<and> preserved h h')"
proof (induction cs arbitrary: h)
  case Nil
  show ?case by (simp add: preserved_refl)
next
  case (Cons c cs)
  obtain r h1 where one: "run_call ff bf c h = (r, h1)"
    by (metis prod.exhaust)
  have r: "r = wrapped_strategy ff bf (LazyStrategy c) \<and> preserved h h1"
  proof (cases c)
    case (FromModel model kw)
    with one from_model_st_refines [of ff model kw h] show ?thesis by simp
  next
    case (FromForm form kw)
    with one from_form_st_refines [of ff bf form kw h] show ?thesis by simp
  qed
  obtain rs h2 where rest: "run_calls ff bf cs h1 = (rs, h2)"
    by (metis prod.exhaust)
  with Cons [of h1] have
    "rs = map (\<lambda>c. wrapped_strategy ff bf (LazyStrategy c)) cs"
    "preserved h1 h2"
    by simp_all
  with one rest r show ?case
    by (auto intro: preserved_trans)
qed

lemma draw_module_free:
  "module_free s \<longrightarrow> draw E g s w = draw E g' s w"
  "module_free_kwargs kw \<longrightarrow> draw_kwargs E g kw w = draw_kwargs E g' kw w"
proof (induction E g s w and E g kw w rule: draw_draw_kwargs.induct)
  case (3 E g target kw w)
  then show ?case
    by (cases target) (auto simp: FormWrap_new_def split: prod.splits sum.splits)
next
  case (4 E g strat w)
  then show ?case by (simp add: models_impl_def)
next
  case (5 E g strat w)
  then show ?case by (simp add: forms_impl_def)
next
  case (15 E g k s rest w)
  then show ?case
    by (auto split: prod.splits sum.splits)
qed simp_all

lemma module_free_kwargs_iff:
  "module_free_kwargs d \<longleftrightarrow> (\<forall>kv \<in> set d. module_free (snd kv))"
  by (induction d) auto

lemma module_free_dict_set:
  "\<forall>kv \<in> set d. module_free (snd kv) \<Longrightarrow> module_free v \<Longrightarrow>
     \<forall>kv \<in> set (dict_set d k v). module_free (snd kv)"
  using dict_set_values [of d k v] by auto

lemma model_infer_loop_module_free:
  "model_infer_loop ff fbn items fs log = (Inr fs', log') \<Longrightarrow>
     \<forall>kv \<in> set fs. module_free (snd kv) \<Longrightarrow> \<forall>f s. ff f = Inr s \<longrightarrow> module_free s \<Longrightarrow>
     \<forall>kv \<in> set fs'. module_free (snd kv)"
proof (induction ff fbn items fs log rule: model_infer_loop.induct)
  case (1 ff fbn fs log)
  then show ?case by simp
next
  case (2 ff fbn nm v rest fs log)
  show ?case
  proof (cases "v = Infer")
    case False
    with 2(3) have "model_infer_loop ff fbn rest fs log = (Inr fs', log')" by simp
    from 2(2) [OF False this 2(4) 2(5)] show ?thesis .
  next
    case True
    from 2(3) True obtain field s where
      f: "dict_get fbn nm = Some field" and s: "ff (MF field) = Inr s"
      and run: "model_infer_loop ff fbn rest (dict_set fs nm s) (log @ [(nm, MF field)]) = (Inr fs', log')"
      by (auto split: option.splits sum.splits)
    have "\<forall>kv \<in> set (dict_set fs nm s). module_free (snd kv)"
      using 2(4) 2(5) s by (intro module_free_dict_set) auto
    from 2(1) [OF True f s run this 2(5)] show ?thesis .
  qed
qed

lemma model_default_loop_module_free:
  "model_default_loop ff items fs log = (Inr fs', log') \<Longrightarrow>
     \<forall>kv \<in> set fs. module_free (snd kv) \<Longrightarrow> \<forall>f s. ff f = Inr s \<longrightarrow> module_free s \<Longrightarrow>
     \<forall>kv \<in> set fs'. module_free (snd kv)"
proof (induction ff items fs log rule: model_default_loop.induct)
  case (1 ff fs log)
  then show ?case by simp
next
  case (2 ff nm field rest fs log)
  let ?c = "nm \<notin> set (dict_keys fs) \<and> \<not> auto_created field \<and> fdefault field = NOT_PROVIDED"
  show ?case
  proof (cases ?c)
    case False
    with 2(3) have "model_default_loop ff rest fs log = (Inr fs', log')" by auto
    from 2(2) [OF False this 2(4) 2(5)] show ?thesis .
  next
    case True
    with 2(3) obtain s where s: "ff (MF field) = Inr s"
      and run: "model_default_loop ff rest (dict_set fs nm s) (log @ [(nm, MF field)]) = (Inr fs', log')"
      by (auto split: sum.splits)
    have "\<forall>kv \<in> set (dict_set fs nm s). module_free (snd kv)"
      using 2(4) 2(5) s by (intro module_free_dict_set) auto
    from 2(1) [OF True s run this 2(5)] show ?thesis .
  qed
qed

lemma form_default_loop_module_free:
  "form_default_loop ff items fs log = (Inr fs', log') \<Longrightarrow>
     \<forall>kv \<in> set fs. module_free (snd kv) \<Longrightarrow> \<forall>f s. ff f = Inr s \<longrightarrow> module_free s \<Longrightarrow>
     \<forall>kv \<in> set fs'. module_free (snd kv)"
proof (induction ff items fs log rule: form_default_loop.induct)
  case (1 ff fs log)
  then show ?case by simp
next
  case (2 ff nm field rest fs log)
  let ?c = "nm \<notin> set (dict_keys fs) \<and> \<not> disabled field"
  show ?case
  proof (cases ?c)
    case False
    with 2(3) have "form_default_loop ff rest fs log = (Inr fs', log')" by auto
    from 2(2) [OF False this 2(4) 2(5)] show ?thesis .
  next
    case True
    with 2(3) obtain s where s: "ff (FF field) = Inr s"
      and run: "form_default_loop ff rest (dict_set fs nm s) (log @ [(nm, FF field)]) = (Inr fs', log')"
      by (auto split: sum.splits)
    have "\<forall>kv \<in> set (dict_set fs nm s). module_free (snd kv)"
      using 2(4) 2(5) s by (intro module_free_dict_set) auto
    from 2(1) [OF True s run this 2(5)] show ?thesis .
  qed
qed

lemma split_loop_values:
  "split_loop kw fs fkw = (fs', fkw') \<Longrightarrow> set fs' \<subseteq> set fs \<union> set kw"
proof (induction kw fs fkw rule: split_loop.induct)
  case (1 fs fkw)
  then show ?case by simp
next
  case (2 k v rest fs fkw)
  show ?case
  proof (cases "isinstance_SearchStrategy v")
    case True
    with 2(3) have "split_loop rest (dict_set fs k v) fkw = (fs', fkw')" by simp
    from 2(1) [OF True this] dict_set_values [of fs k v] show ?thesis by auto
  next
    case False
    with 2(3) have "split_loop rest fs (dict_set fkw k v) = (fs', fkw')" by simp
    from 2(2) [OF False this] show ?thesis by auto
  qed
qed

lemma primary_key_loop_module_free:
  "primary_key_loop model fs ks = Inr strat \<Longrightarrow> \<forall>kv \<in> set fs. module_free (snd kv) \<Longrightarrow>
     module_free strat"
proof (induction model fs ks rule: primary_key_loop.induct)
  case (1 model fs)
  then show ?case by (auto simp: module_free_kwargs_iff)
next
  case (2 model fs field rest)
  from 2(2) obtain f where f: "get_field model field = Inr f"
    by (auto split: sum.splits)
  show ?case
  proof (cases "primary_key f")
    case False
    with 2(2) f have "primary_key_loop model fs rest = Inr strat" by simp
    from 2(1) [OF f False this 2(3)] show ?thesis .
  next
    case True
    with 2(2) f obtain s where s: "dict_get fs field = Some s" and
      strat: "strat = ModelsImpl (Builds (UpdateOrCreate model)
        (dict_set [(field, s)] ''defaults'' (FixedDictionaries (dict_pop fs field))))"
      by (auto split: option.splits simp del: dict_set.simps)
    from s have "(field, s) \<in> set fs"
      by (simp add: dict_get_def map_of_SomeD)
    with 2(3) have ms: "module_free s" by auto
    have "module_free (FixedDictionaries (dict_pop fs field))"
      using 2(3) by (simp add: module_free_kwargs_iff dict_pop_def)
    with ms have "\<forall>kv \<in> set (dict_set [(field, s)] ''defaults''
        (FixedDictionaries (dict_pop fs field))). module_free (snd kv)"
      by (intro module_free_dict_set) simp_all
    then show ?thesis
      unfolding strat by (simp add: module_free_kwargs_iff del: dict_set.simps)
  qed
qed

lemma from_model_module_free:
  assumes "from_model ff model kw = (Inr strat, log)"
    and "\<forall>kv \<in> set kw. module_free (snd kv)" and "\<forall>f s. ff f = Inr s \<longrightarrow> module_free s"
  shows "module_free strat"
proof -
  from assms(1) obtain fs1 log1 fs2 where
    l1: "model_infer_loop ff (dict_of_fields (concrete_fields model) []) (sorted_items kw) kw []
       = (Inr fs1, log1)" and
    l2: "model_default_loop ff (sorted_items (dict_of_fields (concrete_fields model) [])) fs1 log1
       = (Inr fs2, log)" and
    l3: "primary_key_loop model fs2 (dict_keys fs2) = Inr strat"
    by (rule from_model_success)
  from model_infer_loop_module_free [OF l1 assms(2) assms(3)]
  have "\<forall>kv \<in> set fs1. module_free (snd kv)" .
  from model_default_loop_module_free [OF l2 this assms(3)]
  have "\<forall>kv \<in> set fs2. module_free (snd kv)" .
  from primary_key_loop_module_free [OF l3 this] show ?thesis .
qed

lemma from_form_module_free:
  assumes "from_form ff bf form kw = (Inr strat, log)"
    and "\<forall>kv \<in> set kw. module_free (snd kv)" and "\<forall>f s. ff f = Inr s \<longrightarrow> module_free s"
  shows "module_free strat"
proof -
  from assms(1) obtain fs fkw flds fs2 where
    sp: "split_loop kw [] [] = (fs, fkw)" and
    loop: "form_default_loop ff (sorted_items flds) fs [] = (Inr fs2, log)" and
    strat: "strat = FormsImpl (Builds (FormWrapSub (Some form) (Some fkw)) fs2)"
    by (rule from_form_success)
  from split_loop_values [OF sp] assms(2) have "\<forall>kv \<in> set fs. module_free (snd kv)"
    by auto
  from form_default_loop_module_free [OF loop this assms(3)]
  have "\<forall>kv \<in> set fs2. module_free (snd kv)" .
  then show ?thesis
    unfolding strat by (simp add: module_free_kwargs_iff)
qed

section \<open>Example inputs\<close>

text \<open>
  A model with an automatic primary key \<^verbatim>\<open>id\<close>, a required field
  \<^verbatim>\<open>name\<close> and a field \<^verbatim>\<open>age\<close> that has a default.
\<close>

definition ex_id :: model_field where
  "ex_id = \<lparr>name = ''id'', attname = ''id'', auto_created = True, fdefault = NOT_PROVIDED,
            primary_key = True, concrete = True\<rparr>"

definition ex_name :: model_field where
  "ex_name = \<lparr>name = ''name'', attname = ''name'', auto_created = False, fdefault = NOT_PROVIDED,
              primary_key = False, concrete = True\<rparr>"

definition ex_age :: model_field where
  "ex_age = \<lparr>name = ''age'', attname = ''age'', auto_created = False, fdefault = ProvidedDefault,
             primary_key = False, concrete = True\<rparr>"

definition ex_model :: pyclass where
  "ex_model = ModelClass 0 [ex_id, ex_name, ex_age]"

text \<open>
  A model whose primary key is a field named \<^verbatim>\<open>defaults\<close>:
  \<^verbatim>\<open>defaults = models.IntegerField(primary_key=True)\<close>.
\<close>

definition ex_defaults :: model_field where
  "ex_defaults = \<lparr>name = ''defaults'', attname = ''defaults'', auto_created = False, fdefault = NOT_PROVIDED,
                  primary_key = True, concrete = True\<rparr>"

definition ex_model_defaults :: pyclass where
  "ex_model_defaults = ModelClass 1 [ex_defaults, ex_name]"

definition ex_ff :: from_field_t where
  "ex_ff f = Inr (Strategy 0)"

text \<open>A form with a field \<^verbatim>\<open>email\<close> and a disabled field \<^verbatim>\<open>token\<close>.\<close>

definition ex_email :: form_field where
  "ex_email = \<lparr>disabled = False, field_id = 0\<rparr>"

definition ex_token :: form_field where
  "ex_token = \<lparr>disabled = True, field_id = 1\<rparr>"

definition ex_form :: pyclass where
  "ex_form = FormClass 0"

definition ex_blank_fields :: blank_fields_t where
  "ex_blank_fields c kw = Inr [(''email'', ex_email), (''token'', ex_token)]"

text \<open>The module as it is loaded: \<^verbatim>\<open>wraps = df.Form\<close>, \<^verbatim>\<open>form_kwargs = {}\<close>.\<close>

definition ex_module :: module_state where
  "ex_module = \<lparr>FormWrap_wraps = FormClass 99, FormWrap_form_kwargs = []\<rparr>"

definition ex_module_changed :: module_state where
  "ex_module_changed =
     \<lparr>FormWrap_wraps = FormClass 98, FormWrap_form_kwargs = [(''prefix'', PyStr ''p'')]\<rparr>"

text \<open>
  Three worlds, with the number of calls made as their state: one where every call
  succeeds, one where the manager methods raise \<^verbatim>\<open>IntegrityError\<close> and the form
  constructor raises \<^verbatim>\<open>ValidationError\<close>, and one where the manager methods raise
  \<^verbatim>\<open>ValidationError\<close> and the form constructor raises \<^verbatim>\<open>IntegrityError\<close>.
\<close>

definition ex_env_ok :: "nat env" where
  "ex_env_ok =
     \<lparr>draw_opaque = (\<lambda>n w. (Inr (PyInt (int n)), Suc w)),
      update_or_create = (\<lambda>m kw w. (Inr (PyObj 7, False), Suc w)),
      get_or_create = (\<lambda>m kw w. (Inr (PyObj 7, True), Suc w)),
      form_init = (\<lambda>c kw w. (Inr (PyObj 8), Suc w))\<rparr>"

definition ex_env_caught :: "nat env" where
  "ex_env_caught =
     \<lparr>draw_opaque = (\<lambda>n w. (Inr (PyInt (int n)), Suc w)),
      update_or_create = (\<lambda>m kw w. (Inl IntegrityError, Suc w)),
      get_or_create = (\<lambda>m kw w. (Inl IntegrityError, Suc w)),
      form_init = (\<lambda>c kw w. (Inl ValidationError, Suc w))\<rparr>"

definition ex_env_crossed :: "nat env" where
  "ex_env_crossed =
     \<lparr>draw_opaque = (\<lambda>n w. (Inr (PyInt (int n)), Suc w)),
      update_or_create = (\<lambda>m kw w. (Inl ValidationError, Suc w)),
      get_or_create = (\<lambda>m kw w. (Inl ValidationError, Suc w)),
      form_init = (\<lambda>c kw w. (Inl IntegrityError, Suc w))\<rparr>"

text \<open>
  A \<^verbatim>\<open>from_field\<close> that knows no strategy for the model field \<^verbatim>\<open>name\<close> and
  none for the form field \<^verbatim>\<open>email\<close>, and raises \<^verbatim>\<open>InvalidArgument\<close> for them;
  a model with a second required field, \<^verbatim>\<open>nick\<close>.
\<close>

definition ex_ff_bad :: from_field_t where
  "ex_ff_bad f = (if f = MF ex_name \<or> f = FF ex_email then Inl InvalidArgument
                  else Inr (Strategy 0))"

definition ex_nick :: model_field where
  "ex_nick = \<lparr>name = ''nick'', attname = ''nick'', auto_created = False,
              fdefault = NOT_PROVIDED, primary_key = False, concrete = True\<rparr>"

definition ex_model_two :: pyclass where
  "ex_model_two = ModelClass 2 [ex_id, ex_name, ex_nick]"

text \<open>A form with the two fields \<^verbatim>\<open>email\<close> and \<^verbatim>\<open>phone\<close>, none disabled.\<close>

definition ex_phone :: form_field where
  "ex_phone = \<lparr>disabled = False, field_id = 2\<rparr>"

definition ex_blank_fields_two :: blank_fields_t where
  "ex_blank_fields_two c kw = Inr [(''email'', ex_email), (''phone'', ex_phone)]"

text \<open>An object that is no class, as \<^verbatim>\<open>from_model(42)\<close> would pass.\<close>

definition ex_not_a_class :: pyclass where
  "ex_not_a_class = NotAClass 42"

text \<open>
  A store with the module as loaded and one dictionary of the caller, and a store
  with both attributes of \<^verbatim>\<open>_FormWrap\<close> changed and another dictionary.
\<close>

definition ex_heap :: heap where
  "ex_heap = \<lparr>FormWrap_attrs = ex_module, dicts = [[(''shared'', PyInt 1)]]\<rparr>"

definition ex_heap_changed :: heap where
  "ex_heap_changed =
     \<lparr>FormWrap_attrs = ex_module_changed, dicts = [[(''other'', PyInt 2)], []]\<rparr>"

section \<open>The examples, evaluated\<close>

lemma ex_from_model:
  "from_model ex_ff ex_model [] =
     (Inr (ModelsImpl (Builds (GetOrCreate ex_model) [(''name'', Strategy 0)])),
      [(''name'', MF ex_name)])"
  by (simp add: from_model_def concrete_fields_def sorted_items_def dict_keys_def
      get_field_def dict_get_def ex_model_def ex_id_def ex_name_def ex_age_def ex_ff_def)

lemma ex_from_form:
  "from_form ex_ff ex_blank_fields ex_form
     [(''email'', Strategy 3), (''prefix'', PyStr ''x''), (''n'', Infer)] =
     (Inr (FormsImpl (Builds
        (FormWrapSub (Some ex_form) (Some [(''prefix'', PyStr ''x''), (''n'', Infer)]))
        [(''email'', Strategy 3)])), [])"
  by (simp add: from_form_def sorted_items_def dict_keys_def dict_get_def
      ex_form_def ex_blank_fields_def ex_email_def ex_token_def ex_ff_def)
lemma ex_crossed_model:
  "draw ex_env_crossed ex_module
     (ModelsImpl (Builds (GetOrCreate ex_model) [(''name'', Strategy 0)])) 0
   = (Inl ValidationError, 2)"
  by (simp add: models_impl_def pair_result_def ex_env_crossed_def)
lemma ex_ok_model:
  "draw ex_env_ok ex_module
     (ModelsImpl (Builds (GetOrCreate ex_model) [(''name'', Strategy 0)])) 0
   = (Inr (PyObj 7), 2)"
  by (simp add: models_impl_def pair_result_def ex_env_ok_def)

lemma ex_ok_form:
  "draw ex_env_ok ex_module (FormsImpl (Builds
        (FormWrapSub (Some ex_form) (Some [(''prefix'', PyStr ''x''), (''n'', Infer)]))
        [(''email'', Strategy 3)])) 0 = (Inr (PyObj 8), 2)"
  by (simp add: forms_impl_def FormWrap_new_def dict_keys_def ex_env_ok_def)
lemma ex_from_model_infer:
  "from_model ex_ff ex_model [(''age'', Infer)] =
     (Inr (ModelsImpl (Builds (GetOrCreate ex_model)
        [(''age'', Strategy 0), (''name'', Strategy 0)])),
      [(''age'', MF ex_age), (''name'', MF ex_name)])"
  by (simp add: from_model_def concrete_fields_def sorted_items_def dict_keys_def
      get_field_def dict_get_def ex_model_def ex_id_def ex_name_def ex_age_def ex_ff_def)

lemma ex_concrete_fields:
  "concrete_fields ex_model = [ex_id, ex_name, ex_age]"
  by (simp add: concrete_fields_def ex_model_def ex_id_def ex_name_def ex_age_def)
lemma ex_from_form_inferred:
  "from_form ex_ff ex_blank_fields ex_form [(''prefix'', PyStr ''x'')] =
     (Inr (FormsImpl (Builds
        (FormWrapSub (Some ex_form) (Some [(''prefix'', PyStr ''x'')]))
        [(''email'', Strategy 0)])), [(''email'', FF ex_email)])"
  by (simp add: from_form_def sorted_items_def dict_keys_def dict_get_def
      ex_form_def ex_blank_fields_def ex_email_def ex_token_def ex_ff_def)
lemma ex_from_model_bad:
  "from_model ex_ff_bad ex_model_two [] = (Inl InvalidArgument, [(''name'', MF ex_name)])"
  by (simp add: from_model_def concrete_fields_def sorted_items_def dict_keys_def
      get_field_def dict_get_def ex_model_two_def ex_id_def ex_name_def ex_nick_def
      ex_ff_bad_def)

lemma ex_concrete_fields_two:
  "concrete_fields ex_model_two = [ex_id, ex_name, ex_nick]"
  by (simp add: concrete_fields_def ex_model_two_def ex_id_def ex_name_def ex_nick_def)

lemma ex_model_field_strategies:
  "model_field_strategies ex_ff ex_model [(''age'', Infer)] =
     (Inr [(''age'', Strategy 0), (''name'', Strategy 0)],
      [(''age'', MF ex_age), (''name'', MF ex_name)])"
  by (simp add: model_field_strategies_def concrete_fields_def sorted_items_def dict_keys_def
      dict_get_def ex_model_def ex_id_def ex_name_def ex_age_def ex_ff_def)
lemma ex_from_form_bad:
  "from_form ex_ff_bad ex_blank_fields_two ex_form [] =
     (Inl InvalidArgument, [(''email'', FF ex_email)])"
  by (simp add: from_form_def sorted_items_def dict_keys_def dict_get_def
      ex_form_def ex_blank_fields_two_def ex_email_def ex_phone_def ex_ff_bad_def)

lemma ex_form_field_strategies:
  "form_field_strategies ex_ff ex_blank_fields ex_form [(''prefix'', PyStr ''x'')] =
     (Inr [(''email'', Strategy 0)], [(''email'', FF ex_email)])"
  by (simp add: form_field_strategies_def sorted_items_def dict_keys_def dict_get_def
      ex_form_def ex_blank_fields_def ex_email_def ex_token_def ex_ff_def)
lemma ex_crossed_form:
  "draw ex_env_crossed ex_module (FormsImpl (Builds
        (FormWrapSub (Some ex_form) (Some [(''prefix'', PyStr ''x''), (''n'', Infer)]))
        [(''email'', Strategy 3)])) 0 = (Inl IntegrityError, 2)"
  by (simp add: forms_impl_def FormWrap_new_def dict_keys_def ex_env_crossed_def)

lemma ex_crossed_model_inner:
  "draw ex_env_crossed ex_module (Builds (GetOrCreate ex_model) [(''name'', Strategy 0)]) 0
   = (Inl ValidationError, 2)"
  by (simp add: pair_result_def ex_env_crossed_def)

lemma ex_crossed_form_inner:
  "draw ex_env_crossed ex_module (Builds
        (FormWrapSub (Some ex_form) (Some [(''prefix'', PyStr ''x''), (''n'', Infer)]))
        [(''email'', Strategy 3)]) 0 = (Inl IntegrityError, 2)"
  by (simp add: FormWrap_new_def dict_keys_def ex_env_crossed_def)
lemma ex_from_model_st:
  "from_model_st ex_ff ex_model [] ex_heap =
     ((Inr (ModelsImpl (Builds (GetOrCreate ex_model) [(''name'', Strategy 0)])),
       [(''name'', MF ex_name)]),
      \<lparr>FormWrap_attrs = ex_module,
         dicts = [[(''shared'', PyInt 1)], [(''name'', Strategy 0)]]\<rparr>)"
  by (simp add: from_model_st_def new_dict_def getd_def setitem_def concrete_fields_def
      sorted_items_def dict_keys_def get_field_def dict_get_def ex_heap_def ex_model_def
      ex_id_def ex_name_def ex_age_def ex_ff_def)

lemma ex_from_form_st:
  "from_form_st ex_ff ex_blank_fields ex_form
     [(''email'', Strategy 3), (''prefix'', PyStr ''x''), (''n'', Infer)] ex_heap =
     ((Inr (FormsImpl (Builds
        (FormWrapSub (Some ex_form) (Some [(''prefix'', PyStr ''x''), (''n'', Infer)]))
        [(''email'', Strategy 3)])), []),
      \<lparr>FormWrap_attrs = ex_module,
         dicts = [[(''shared'', PyInt 1)],
                  [(''email'', Strategy 3), (''prefix'', PyStr ''x''), (''n'', Infer)],
                  [(''email'', Strategy 3)],
                  [(''prefix'', PyStr ''x''), (''n'', Infer)]]\<rparr>)"
  by (simp add: from_form_st_def new_dict_def getd_def setitem_def sorted_items_def
      dict_keys_def dict_get_def ex_heap_def ex_form_def ex_blank_fields_def ex_email_def
      ex_token_def ex_ff_def)

section \<open>The claims\<close>

text \<open>
  C1. A strategy returned by \<^verbatim>\<open>from_model\<close> is \<^verbatim>\<open>_models_impl\<close> applied to an
  inner strategy: when drawing from the inner strategy raises
  \<^verbatim>\<open>IntegrityError\<close>, drawing from the returned strategy ends in
  \<^verbatim>\<open>reject()\<close>, the request to discard the example and draw another, and the error
  does not reach the caller. A strategy returned by \<^verbatim>\<open>from_form\<close> does the same
  with \<^verbatim>\<open>ValidationError\<close>.
\<close>

theorem rejection_wrapping:
  "(from_model ff model kw = (Inr strat, log) \<longrightarrow>
      (\<exists>inner. strat = ModelsImpl inner \<and>
         (draw E g inner w = (Inl IntegrityError, w') \<longrightarrow> draw E g strat w = reject w')))
   \<and> (from_form ff bf form kwf = (Inr stratf, logf) \<longrightarrow>
      (\<exists>inner. stratf = FormsImpl inner \<and>
         (draw E g inner w = (Inl ValidationError, w') \<longrightarrow> draw E g stratf w = reject w')))"
proof (intro conjI impI)
  assume "from_model ff model kw = (Inr strat, log)"
  then obtain target kwargs where "strat = ModelsImpl (Builds target kwargs)"
    using from_model_shape by blast
  then show "\<exists>inner. strat = ModelsImpl inner \<and>
         (draw E g inner w = (Inl IntegrityError, w') \<longrightarrow> draw E g strat w = reject w')"
    by (simp add: models_impl_def)
next
  assume "from_form ff bf form kwf = (Inr stratf, logf)"
  then obtain c fs where "stratf = FormsImpl (Builds c fs)"
    by (elim from_form_success) simp
  then show "\<exists>inner. stratf = FormsImpl inner \<and>
         (draw E g inner w = (Inl ValidationError, w') \<longrightarrow> draw E g stratf w = reject w')"
    by (simp add: forms_impl_def)
qed

text \<open>
  The example model in a world where \<^verbatim>\<open>get_or_create\<close> raises
  \<^verbatim>\<open>IntegrityError\<close>, and the example form in a world where the form's
  constructor raises \<^verbatim>\<open>ValidationError\<close>.
\<close>

theorem rejection_wrapping_witness:
  "from_model ex_ff ex_model [] =
     (Inr (ModelsImpl (Builds (GetOrCreate ex_model) [(''name'', Strategy 0)])),
      [(''name'', MF ex_name)])
   \<and> draw ex_env_caught ex_module (Builds (GetOrCreate ex_model) [(''name'', Strategy 0)]) 0
       = (Inl IntegrityError, 2)
   \<and> draw ex_env_caught ex_module
        (ModelsImpl (Builds (GetOrCreate ex_model) [(''name'', Strategy 0)])) 0
       = (Inl UnsatisfiedAssumption, 2)
   \<and> from_form ex_ff ex_blank_fields ex_form
        [(''email'', Strategy 3), (''prefix'', PyStr ''x''), (''n'', Infer)] =
      (Inr (FormsImpl (Builds
        (FormWrapSub (Some ex_form) (Some [(''prefix'', PyStr ''x''), (''n'', Infer)]))
        [(''email'', Strategy 3)])), [])
   \<and> draw ex_env_caught ex_module (Builds
        (FormWrapSub (Some ex_form) (Some [(''prefix'', PyStr ''x''), (''n'', Infer)]))
        [(''email'', Strategy 3)]) 0 = (Inl ValidationError, 2)
   \<and> draw ex_env_caught ex_module (FormsImpl (Builds
        (FormWrapSub (Some ex_form) (Some [(''prefix'', PyStr ''x''), (''n'', Infer)]))
        [(''email'', Strategy 3)])) 0 = (Inl UnsatisfiedAssumption, 2)"
proof -
  have m: "draw ex_env_caught ex_module
      (Builds (GetOrCreate ex_model) [(''name'', Strategy 0)]) 0 = (Inl IntegrityError, 2)"
    by (simp add: pair_result_def ex_env_caught_def)
  have f: "draw ex_env_caught ex_module (Builds
        (FormWrapSub (Some ex_form) (Some [(''prefix'', PyStr ''x''), (''n'', Infer)]))
        [(''email'', Strategy 3)]) 0 = (Inl ValidationError, 2)"
    by (simp add: FormWrap_new_def dict_keys_def ex_env_caught_def)
  show ?thesis
    using rejection_wrapping [where ff = ex_ff and model = ex_model and kw = "[]"
        and strat = "ModelsImpl (Builds (GetOrCreate ex_model) [(''name'', Strategy 0)])"
        and log = "[(''name'', MF ex_name)]" and E = ex_env_caught and g = ex_module
        and w = 0 and w' = 2 and bf = ex_blank_fields and form = ex_form
        and kwf = "[(''email'', Strategy 3), (''prefix'', PyStr ''x''), (''n'', Infer)]"
        and stratf = "FormsImpl (Builds
          (FormWrapSub (Some ex_form) (Some [(''prefix'', PyStr ''x''), (''n'', Infer)]))
          [(''email'', Strategy 3)])" and logf = "[]"]
      ex_from_model ex_from_form m f
    by (simp add: reject_def)
qed

text \<open>
  C2 at a model whose primary key is a field named \<^verbatim>\<open>defaults\<close>: the strategy
  inferred for the primary key is put into \<^verbatim>\<open>kwargs\<close> under the key
  \<^verbatim>\<open>defaults\<close> and then replaced by the assignment
  \<^verbatim>\<open>kwargs["defaults"] = st.fixed_dictionaries(field_strategies)\<close>, so
  \<^verbatim>\<open>update_or_create\<close> is called with the defaults alone and is not keyed on
  the primary key.
\<close>

theorem primary_key_named_defaults:
  "from_model ex_ff ex_model_defaults [] =
     (Inr (ModelsImpl (Builds (UpdateOrCreate ex_model_defaults)
        [(''defaults'', FixedDictionaries [(''name'', Strategy 0)])])),
      [(''defaults'', MF ex_defaults), (''name'', MF ex_name)])"
  by (simp add: from_model_def concrete_fields_def sorted_items_def dict_keys_def
      get_field_def dict_get_def dict_pop_def ex_model_defaults_def ex_defaults_def
      ex_name_def ex_ff_def)

text \<open>
  C3, as stated: a strategy is inferred for a concrete field exactly when no keyword
  argument names it, it is not auto-created and it has no default. It fails in two
  ways. \<^verbatim>\<open>from_model(M, age=infer)\<close> infers a strategy for the field
  \<^verbatim>\<open>age\<close>, which a keyword argument names and which has a default, as the
  docstring of \<^verbatim>\<open>from_model\<close> promises. And when \<^verbatim>\<open>from_field\<close> raises for
  the field \<^verbatim>\<open>name\<close>, the loop ends there: no strategy is inferred for the field
  \<^verbatim>\<open>nick\<close>, which no keyword argument names, which is not auto-created and has
  no default.
\<close>

theorem model_inference_differs:
  "from_model ex_ff ex_model [(''age'', Infer)] =
     (Inr (ModelsImpl (Builds (GetOrCreate ex_model)
        [(''age'', Strategy 0), (''name'', Strategy 0)])),
      [(''age'', MF ex_age), (''name'', MF ex_name)])
   \<and> ex_age \<in> set (concrete_fields ex_model)
   \<and> ''age'' \<in> set (dict_keys [(''age'', Infer)])
   \<and> fdefault ex_age = ProvidedDefault
   \<and> from_model ex_ff_bad ex_model_two [] = (Inl InvalidArgument, [(''name'', MF ex_name)])
   \<and> ex_nick \<in> set (concrete_fields ex_model_two)
   \<and> name ex_nick \<notin> set (dict_keys [])
   \<and> \<not> auto_created ex_nick
   \<and> fdefault ex_nick = NOT_PROVIDED"
  using ex_from_model_infer ex_from_model_bad
  by (simp add: ex_concrete_fields ex_concrete_fields_two dict_keys_def)
     (simp add: ex_age_def ex_nick_def)

text \<open>
  C3, amended. When the two loops of lines 97 to 106 end without an exception, then for
  each concrete field of the model (their names differ): if the keyword argument of the
  field's name is \<^verbatim>\<open>infer\<close>, or if no keyword argument has the field's name and
  the field is not auto-created and has no default, then \<^verbatim>\<open>from_field\<close> is called
  on the field and the strategy it returns is the field's entry in
  \<^verbatim>\<open>field_strategies\<close>; otherwise \<^verbatim>\<open>from_field\<close> is not called on the field
  and the entry is the caller's, or there is none. The strategy of
  \<^verbatim>\<open>from_model\<close> is built from these entries by the last loop.
\<close>

theorem inferred_fields_of_model:
  assumes ok: "model_field_strategies ff model kw = (Inr fs, log)"
    and names: "distinct (map name (concrete_fields model))"
    and f: "f \<in> set (concrete_fields model)"
  shows "(if (name f, Infer) \<in> set kw
             \<or> (name f \<notin> set (dict_keys kw) \<and> \<not> auto_created f
                 \<and> fdefault f = NOT_PROVIDED)
          then (name f, MF f) \<in> set log
               \<and> (\<exists>s. ff (MF f) = Inr s \<and> dict_get fs (name f) = Some s)
          else (name f, MF f) \<notin> set log
               \<and> dict_get fs (name f) = dict_get kw (name f))
         \<and> from_model ff model kw = (primary_key_loop model fs (dict_keys fs), log)"
proof -
  let ?fbn = "dict_of_fields (concrete_fields model) []"
  let ?n = "name f"
  let ?c1 = "(?n, Infer) \<in> set kw"
  let ?c2 = "?n \<notin> set (dict_keys kw) \<and> \<not> auto_created f \<and> fdefault f = NOT_PROVIDED"
  from ok obtain fs1 log1 where
    l1: "model_infer_loop ff ?fbn (sorted_items kw) kw [] = (Inr fs1, log1)" and
    l2: "model_default_loop ff (sorted_items ?fbn) fs1 log1 = (Inr fs, log)"
    by (rule model_field_strategies_success)
  have fbn: "?fbn = map (\<lambda>f. (name f, f)) (concrete_fields model)"
    using dict_of_fields_distinct_names [of "[]" "concrete_fields model"] names
    by (simp add: dict_keys_def)
  have keys: "map fst ?fbn = map name (concrete_fields model)"
    by (simp add: fbn comp_def)
  have d: "distinct (map fst (sorted_items ?fbn))"
    using keys names by (simp add: distinct_keys_sorted_items)
  have mem: "(?n, f') \<in> set ?fbn \<longleftrightarrow> f' = f" for f'
  proof
    assume "(?n, f') \<in> set ?fbn"
    then have "f' \<in> set (concrete_fields model)" "name f' = ?n"
      by (auto simp: fbn)
    with names f show "f' = f"
      by (meson distinct_map inj_onD)
  next
    assume "f' = f" with f show "(?n, f') \<in> set ?fbn" by (auto simp: fbn)
  qed
  have get: "dict_get ?fbn ?n = Some f' \<longleftrightarrow> f' = f" for f'
  proof -
    have "distinct (map fst ?fbn)" using keys names by simp
    moreover have "(?n, f) \<in> set ?fbn" using mem by simp
    ultimately have "map_of ?fbn ?n = Some f" by (rule map_of_is_SomeI)
    then show ?thesis by (auto simp: dict_get_def)
  qed
  \<comment> \<open>the calls\<close>
  from model_infer_loop_calls [OF l1] have
    log1: "set log1 = {(n, MF f) | n f. (n, Infer) \<in> set kw \<and> dict_get ?fbn n = Some f}" and
    keys1: "set (dict_keys fs1) = set (dict_keys kw) \<union> {n. (n, Infer) \<in> set kw}"
    by (simp_all add: set_sorted_items)
  have keys1': "set (dict_keys fs1) = set (dict_keys kw)"
    using keys1 by (force simp: dict_keys_def)
  from model_default_loop_calls [OF l2 d] have
    log: "set log = set log1 \<union>
       {(n, MF f) | n f. (n, f) \<in> set ?fbn \<and> n \<notin> set (dict_keys fs1)
          \<and> \<not> auto_created f \<and> fdefault f = NOT_PROVIDED}"
    by (simp add: set_sorted_items)
  have "(?n, MF f) \<in> set log1 \<longleftrightarrow> ?c1"
    using get by (auto simp: log1)
  moreover have "(?n, MF f) \<in> {(n, MF f) | n f. (n, f) \<in> set ?fbn \<and> n \<notin> set (dict_keys fs1)
          \<and> \<not> auto_created f \<and> fdefault f = NOT_PROVIDED} \<longleftrightarrow> ?c2"
    using mem by (auto simp: keys1')
  ultimately have calls: "(?n, MF f) \<in> set log \<longleftrightarrow> ?c1 \<or> ?c2"
    unfolding log by blast
  \<comment> \<open>the entries\<close>
  note e1 = model_infer_loop_entries [OF l1, unfolded set_sorted_items]
  note e2 = model_default_loop_entries [OF l2 d, unfolded set_sorted_items]
  have inferred: "\<exists>s. ff (MF f) = Inr s \<and> dict_get fs ?n = Some s" if "?c1 \<or> ?c2"
  proof (cases ?c1)
    case True
    with e1 obtain f' s where f': "dict_get ?fbn ?n = Some f'" and "ff (MF f') = Inr s"
      "dict_get fs1 ?n = Some s"
      by blast
    moreover from f' get have "f' = f" by blast
    ultimately have s: "ff (MF f) = Inr s" "dict_get fs1 ?n = Some s"
      by simp_all
    then have "?n \<in> set (dict_keys fs1)"
      using dict_get_None [of fs1 ?n] by auto
    with e2 have "dict_get fs ?n = dict_get fs1 ?n" by blast
    with s show ?thesis by simp
  next
    case False
    with that have c2: ?c2 by blast
    then have "?n \<notin> set (dict_keys fs1)" by (simp add: keys1')
    with e2 mem c2 show ?thesis by blast
  qed
  have kept: "dict_get fs ?n = dict_get kw ?n" if "\<not> (?c1 \<or> ?c2)"
  proof -
    from that e1 have a: "dict_get fs1 ?n = dict_get kw ?n" by blast
    from that have "\<not> (\<exists>f'. (?n, f') \<in> set ?fbn \<and> ?n \<notin> set (dict_keys fs1)
        \<and> \<not> auto_created f' \<and> fdefault f' = NOT_PROVIDED)"
      using mem by (auto simp: keys1')
    with e2 have "dict_get fs ?n = dict_get fs1 ?n" by blast
    with a show ?thesis by simp
  qed
  \<comment> \<open>the strategy returned\<close>
  from f have "issubclass_Model model"
    by (cases model) (simp_all add: concrete_fields_def)
  then have "from_model ff model kw = (primary_key_loop model fs (dict_keys fs), log)"
    by (simp add: from_model_field_strategies ok)
  with calls inferred kept show ?thesis by auto
qed

text \<open>
  \<^verbatim>\<open>from_model(M, age=infer)\<close> on the example model: \<^verbatim>\<open>age\<close> gets the
  strategy of \<^verbatim>\<open>from_field\<close> because of \<^verbatim>\<open>infer\<close>, the auto-created
  \<^verbatim>\<open>id\<close> gets none.
\<close>

theorem inferred_fields_of_model_witness:
  "model_field_strategies ex_ff ex_model [(''age'', Infer)] =
     (Inr [(''age'', Strategy 0), (''name'', Strategy 0)],
      [(''age'', MF ex_age), (''name'', MF ex_name)])
   \<and> distinct (map name (concrete_fields ex_model))
   \<and> ex_age \<in> set (concrete_fields ex_model)
   \<and> ex_id \<in> set (concrete_fields ex_model)
   \<and> (name ex_age, Infer) \<in> set [(''age'', Infer)]
   \<and> (name ex_age, MF ex_age) \<in> set [(''age'', MF ex_age), (''name'', MF ex_name)]
   \<and> (\<exists>s. ex_ff (MF ex_age) = Inr s
          \<and> dict_get [(''age'', Strategy 0), (''name'', Strategy 0)] (name ex_age) = Some s)
   \<and> (name ex_id, Infer) \<notin> set [(''age'', Infer)]
   \<and> auto_created ex_id
   \<and> (name ex_id, MF ex_id) \<notin> set [(''age'', MF ex_age), (''name'', MF ex_name)]
   \<and> dict_get [(''age'', Strategy 0), (''name'', Strategy 0)] (name ex_id)
       = dict_get [(''age'', Infer)] (name ex_id)
   \<and> from_model ex_ff ex_model [(''age'', Infer)] =
       (primary_key_loop ex_model [(''age'', Strategy 0), (''name'', Strategy 0)]
          (dict_keys [(''age'', Strategy 0), (''name'', Strategy 0)]),
        [(''age'', MF ex_age), (''name'', MF ex_name)])"
proof -
  have d: "distinct (map name (concrete_fields ex_model))"
    by (simp add: ex_concrete_fields) (simp add: ex_id_def ex_name_def ex_age_def)
  have a: "ex_age \<in> set (concrete_fields ex_model)"
    and i: "ex_id \<in> set (concrete_fields ex_model)"
    by (simp_all add: ex_concrete_fields)
  have ca: "(name ex_age, Infer) \<in> set [(''age'', Infer)]"
    by (simp add: ex_age_def)
  have ci: "(name ex_id, Infer) \<notin> set [(''age'', Infer)]" "auto_created ex_id"
    by (simp_all add: ex_id_def)
  from inferred_fields_of_model [OF ex_model_field_strategies d a] ca
  have ra: "(name ex_age, MF ex_age) \<in> set [(''age'', MF ex_age), (''name'', MF ex_name)]
      \<and> (\<exists>s. ex_ff (MF ex_age) = Inr s
          \<and> dict_get [(''age'', Strategy 0), (''name'', Strategy 0)] (name ex_age) = Some s)
      \<and> from_model ex_ff ex_model [(''age'', Infer)] =
         (primary_key_loop ex_model [(''age'', Strategy 0), (''name'', Strategy 0)]
            (dict_keys [(''age'', Strategy 0), (''name'', Strategy 0)]),
          [(''age'', MF ex_age), (''name'', MF ex_name)])"
    by presburger
  from inferred_fields_of_model [OF ex_model_field_strategies d i] ci
  have ri: "(name ex_id, MF ex_id) \<notin> set [(''age'', MF ex_age), (''name'', MF ex_name)]
      \<and> dict_get [(''age'', Strategy 0), (''name'', Strategy 0)] (name ex_id)
          = dict_get [(''age'', Infer)] (name ex_id)"
    by presburger
  from ex_model_field_strategies d a i ca ci ra ri show ?thesis
    by blast
qed

text \<open>
  C4, as stated: for each field of the instantiated form a strategy is inferred exactly
  when the field is not disabled and no field strategy names it. It fails when
  \<^verbatim>\<open>from_field\<close> raises: the loop ends at the field \<^verbatim>\<open>email\<close>, and no
  strategy is inferred for the field \<^verbatim>\<open>phone\<close>, which is not disabled and which
  no keyword argument names.
\<close>

theorem form_inference_ends_at_exception:
  "issubclass_BaseForm ex_form
   \<and> from_form ex_ff_bad ex_blank_fields_two ex_form [] =
       (Inl InvalidArgument, [(''email'', FF ex_email)])
   \<and> ex_blank_fields_two ex_form [] = Inr [(''email'', ex_email), (''phone'', ex_phone)]
   \<and> \<not> disabled ex_phone
   \<and> ''phone'' \<notin> set (dict_keys [])
   \<and> (''phone'', FF ex_phone) \<notin> set [(''email'', FF ex_email)]"
  using ex_from_form_bad
  by (simp add: ex_form_def ex_blank_fields_two_def ex_phone_def ex_email_def dict_keys_def)

text \<open>
  C4, amended. When lines 191 to 209 end without an exception, then for each field of
  the blank form, which is instantiated with the keyword arguments that are no
  strategies and whose dictionary of fields has keys that differ: if the field is not
  disabled and no keyword argument that is a strategy has its name, then
  \<^verbatim>\<open>from_field\<close> is called on the field and the strategy it returns is the field's
  entry in \<^verbatim>\<open>field_strategies\<close>; otherwise \<^verbatim>\<open>from_field\<close> is not called on
  the field and the entry is the caller's strategy, or there is none. The strategy
  of \<^verbatim>\<open>from_form\<close> is built from these entries.
\<close>

theorem inferred_fields_of_form:
  assumes ok: "form_field_strategies ff bf form kw = (Inr fs, log)"
    and flds: "bf form (snd (split_loop kw [] [])) = Inr flds"
    and names: "distinct (map fst flds)"
    and f: "(n, f) \<in> set flds"
  shows "(if \<not> disabled f \<and> \<not> (\<exists>v. (n, v) \<in> set kw \<and> isinstance_SearchStrategy v)
          then (n, FF f) \<in> set log \<and> (\<exists>s. ff (FF f) = Inr s \<and> dict_get fs n = Some s)
          else (n, FF f) \<notin> set log
               \<and> dict_get fs n = dict_get (fst (split_loop kw [] [])) n)
         \<and> (issubclass_BaseForm form \<longrightarrow>
              from_form ff bf form kw =
                (Inr (FormsImpl (Builds
                   (FormWrapSub (Some form) (Some (snd (split_loop kw [] [])))) fs)), log))"
proof -
  let ?c = "\<not> disabled f \<and> \<not> (\<exists>v. (n, v) \<in> set kw \<and> isinstance_SearchStrategy v)"
  from ok obtain fs0 fkw flds' where
    sp: "split_loop kw [] [] = (fs0, fkw)" and
    bf: "bf form fkw = Inr flds'" and
    loop: "form_default_loop ff (sorted_items flds') fs0 [] = (Inr fs, log)"
    by (rule form_field_strategies_success)
  from sp bf flds have same: "flds' = flds" by simp
  have keys: "set (dict_keys fs0) = {k. \<exists>v. (k, v) \<in> set kw \<and> isinstance_SearchStrategy v}"
    using split_loop_strategies [OF sp] by (simp add: dict_keys_def)
  have d: "distinct (map fst (sorted_items flds))"
    using names by (rule distinct_keys_sorted_items)
  have one: "(n, f') \<in> set flds \<longleftrightarrow> f' = f" for f'
  proof
    assume "(n, f') \<in> set flds"
    with names f show "f' = f"
      by (meson eq_key_imp_eq_value)
  next
    assume "f' = f" with f show "(n, f') \<in> set flds" by simp
  qed
  from form_default_loop_calls [OF loop [unfolded same] d] have
    log: "set log = {(n, FF f) | n f. (n, f) \<in> set flds \<and> n \<notin> set (dict_keys fs0)
            \<and> \<not> disabled f}"
    by (simp add: set_sorted_items)
  have calls: "(n, FF f) \<in> set log \<longleftrightarrow> ?c"
    unfolding log keys using f by auto
  note e = form_default_loop_entries [OF loop [unfolded same] d, unfolded set_sorted_items]
  have inferred: "\<exists>s. ff (FF f) = Inr s \<and> dict_get fs n = Some s" if ?c
  proof -
    from that have "n \<notin> set (dict_keys fs0)" by (simp add: keys)
    with e f that show ?thesis by blast
  qed
  have kept: "dict_get fs n = dict_get fs0 n" if "\<not> ?c"
  proof -
    from that have "\<not> (\<exists>f'. (n, f') \<in> set flds \<and> n \<notin> set (dict_keys fs0) \<and> \<not> disabled f')"
      using one by (auto simp: keys)
    with e show ?thesis by blast
  qed
  have "from_form ff bf form kw =
      (Inr (FormsImpl (Builds (FormWrapSub (Some form) (Some fkw)) fs)), log)"
    if "issubclass_BaseForm form"
    using that by (simp add: from_form_field_strategies ok sp)
  with calls inferred kept sp show ?thesis by auto
qed
text \<open>
  The example form with one keyword argument for the constructor: \<^verbatim>\<open>email\<close> gets
  the strategy of \<^verbatim>\<open>from_field\<close>, the disabled \<^verbatim>\<open>token\<close> gets none.
\<close>

theorem inferred_fields_of_form_witness:
  "form_field_strategies ex_ff ex_blank_fields ex_form [(''prefix'', PyStr ''x'')] =
     (Inr [(''email'', Strategy 0)], [(''email'', FF ex_email)])
   \<and> ex_blank_fields ex_form (snd (split_loop [(''prefix'', PyStr ''x'')] [] []))
       = Inr [(''email'', ex_email), (''token'', ex_token)]
   \<and> distinct (map fst [(''email'', ex_email), (''token'', ex_token)])
   \<and> (''email'', ex_email) \<in> set [(''email'', ex_email), (''token'', ex_token)]
   \<and> (''token'', ex_token) \<in> set [(''email'', ex_email), (''token'', ex_token)]
   \<and> issubclass_BaseForm ex_form
   \<and> \<not> disabled ex_email
   \<and> \<not> (\<exists>v. (''email'', v) \<in> set [(''prefix'', PyStr ''x'')] \<and> isinstance_SearchStrategy v)
   \<and> (''email'', FF ex_email) \<in> set [(''email'', FF ex_email)]
   \<and> (\<exists>s. ex_ff (FF ex_email) = Inr s \<and> dict_get [(''email'', Strategy 0)] ''email'' = Some s)
   \<and> disabled ex_token
   \<and> (''token'', FF ex_token) \<notin> set [(''email'', FF ex_email)]
   \<and> dict_get [(''email'', Strategy 0)] ''token''
       = dict_get (fst (split_loop [(''prefix'', PyStr ''x'')] [] [])) ''token''
   \<and> from_form ex_ff ex_blank_fields ex_form [(''prefix'', PyStr ''x'')] =
       (Inr (FormsImpl (Builds
          (FormWrapSub (Some ex_form) (Some (snd (split_loop [(''prefix'', PyStr ''x'')] [] []))))
          [(''email'', Strategy 0)])), [(''email'', FF ex_email)])"
proof -
  have b: "ex_blank_fields ex_form (snd (split_loop [(''prefix'', PyStr ''x'')] [] []))
       = Inr [(''email'', ex_email), (''token'', ex_token)]"
    by (simp add: ex_blank_fields_def)
  have d: "distinct (map fst [(''email'', ex_email), (''token'', ex_token)])"
    by simp
  have e: "(''email'', ex_email) \<in> set [(''email'', ex_email), (''token'', ex_token)]"
    and t: "(''token'', ex_token) \<in> set [(''email'', ex_email), (''token'', ex_token)]"
    by simp_all
  have c: "issubclass_BaseForm ex_form"
    by (simp add: ex_form_def)
  have ce: "\<not> disabled ex_email
      \<and> \<not> (\<exists>v. (''email'', v) \<in> set [(''prefix'', PyStr ''x'')] \<and> isinstance_SearchStrategy v)"
    by (simp add: ex_email_def)
  have ct: "disabled ex_token"
    by (simp add: ex_token_def)
  from inferred_fields_of_form [OF ex_form_field_strategies b d e] ce c
  have re: "(''email'', FF ex_email) \<in> set [(''email'', FF ex_email)]
      \<and> (\<exists>s. ex_ff (FF ex_email) = Inr s \<and> dict_get [(''email'', Strategy 0)] ''email'' = Some s)
      \<and> from_form ex_ff ex_blank_fields ex_form [(''prefix'', PyStr ''x'')] =
         (Inr (FormsImpl (Builds
            (FormWrapSub (Some ex_form) (Some (snd (split_loop [(''prefix'', PyStr ''x'')] [] []))))
            [(''email'', Strategy 0)])), [(''email'', FF ex_email)])"
    by presburger
  from inferred_fields_of_form [OF ex_form_field_strategies b d t] ct
  have rt: "(''token'', FF ex_token) \<notin> set [(''email'', FF ex_email)]
      \<and> dict_get [(''email'', Strategy 0)] ''token''
          = dict_get (fst (split_loop [(''prefix'', PyStr ''x'')] [] [])) ''token''"
    by presburger
  from ex_form_field_strategies b d e t c ce ct re rt show ?thesis
    by blast
qed

text \<open>
  C5, as stated: for every argument that is no subclass of \<^verbatim>\<open>dm.Model\<close>,
  \<^verbatim>\<open>from_model\<close> raises \<^verbatim>\<open>InvalidArgument\<close> immediately, and likewise
  \<^verbatim>\<open>from_form\<close>. It fails in two ways. Both functions are decorated with
  \<^verbatim>\<open>st.defines_strategy\<close>, so the call itself raises nothing and returns a lazy
  strategy, also for a form class given to \<^verbatim>\<open>from_model\<close> and a model class given
  to \<^verbatim>\<open>from_form\<close>. And for an argument that is no class, \<^verbatim>\<open>issubclass\<close>
  raises \<^verbatim>\<open>TypeError\<close> when the lazy strategy is resolved.
\<close>

theorem invalid_class_call_returns_lazy:
  "\<not> issubclass_Model ex_form
   \<and> defines_strategy (FromModel ex_form [(''name'', Infer)])
       = Inr (LazyStrategy (FromModel ex_form [(''name'', Infer)]))
   \<and> \<not> issubclass_BaseForm ex_model
   \<and> defines_strategy (FromForm ex_model [(''email'', Strategy 3)])
       = Inr (LazyStrategy (FromForm ex_model [(''email'', Strategy 3)]))
   \<and> \<not> issubclass_Model ex_not_a_class
   \<and> wrapped_strategy ex_ff ex_blank_fields (LazyStrategy (FromModel ex_not_a_class []))
       = (Inl TypeError, [])
   \<and> \<not> issubclass_BaseForm ex_not_a_class
   \<and> wrapped_strategy ex_ff ex_blank_fields (LazyStrategy (FromForm ex_not_a_class []))
       = (Inl TypeError, [])"
  by (simp add: defines_strategy_def from_model_def from_form_def ex_form_def ex_model_def
      ex_not_a_class_def)

text \<open>
  C5, amended. For every class that is no subclass of \<^verbatim>\<open>dm.Model\<close>, the call of
  \<^verbatim>\<open>from_model\<close> returns a lazy strategy; when that strategy is resolved, and so
  when it is drawn from, the function raises \<^verbatim>\<open>InvalidArgument\<close> at its first
  statement: before any call to \<^verbatim>\<open>from_field\<close> (the list of calls is empty),
  whatever the keyword arguments, and as the error itself, not as a rejection. For every
  class that is no subclass of \<^verbatim>\<open>df.BaseForm\<close>, \<^verbatim>\<open>from_form\<close> does the
  same, before the form is instantiated.
\<close>

theorem invalid_class_raises_when_resolved:
  "(isclass model \<and> \<not> issubclass_Model model \<longrightarrow>
      defines_strategy (FromModel model kw) = Inr (LazyStrategy (FromModel model kw))
      \<and> from_model ff model kw = (Inl InvalidArgument, [])
      \<and> wrapped_strategy ff bf (LazyStrategy (FromModel model kw)) = (Inl InvalidArgument, [])
      \<and> draw_lazy E g ff bf (LazyStrategy (FromModel model kw)) w = (Inl InvalidArgument, w))
   \<and> (isclass form \<and> \<not> issubclass_BaseForm form \<longrightarrow>
      defines_strategy (FromForm form kwf) = Inr (LazyStrategy (FromForm form kwf))
      \<and> from_form ff bf form kwf = (Inl InvalidArgument, [])
      \<and> wrapped_strategy ff bf (LazyStrategy (FromForm form kwf)) = (Inl InvalidArgument, [])
      \<and> draw_lazy E g ff bf (LazyStrategy (FromForm form kwf)) w = (Inl InvalidArgument, w))"
  by (simp add: defines_strategy_def draw_lazy_def from_model_def from_form_def)

text \<open>A form class given to \<^verbatim>\<open>from_model\<close>, a model class given to \<^verbatim>\<open>from_form\<close>.\<close>

theorem invalid_class_raises_when_resolved_witness:
  "isclass ex_form \<and> \<not> issubclass_Model ex_form
   \<and> defines_strategy (FromModel ex_form [(''name'', Infer)])
       = Inr (LazyStrategy (FromModel ex_form [(''name'', Infer)]))
   \<and> from_model ex_ff ex_form [(''name'', Infer)] = (Inl InvalidArgument, [])
   \<and> wrapped_strategy ex_ff ex_blank_fields (LazyStrategy (FromModel ex_form [(''name'', Infer)]))
       = (Inl InvalidArgument, [])
   \<and> draw_lazy ex_env_ok ex_module ex_ff ex_blank_fields
        (LazyStrategy (FromModel ex_form [(''name'', Infer)])) 0 = (Inl InvalidArgument, 0)
   \<and> isclass ex_model \<and> \<not> issubclass_BaseForm ex_model
   \<and> defines_strategy (FromForm ex_model [(''email'', Strategy 3)])
       = Inr (LazyStrategy (FromForm ex_model [(''email'', Strategy 3)]))
   \<and> from_form ex_ff ex_blank_fields ex_model [(''email'', Strategy 3)]
       = (Inl InvalidArgument, [])
   \<and> wrapped_strategy ex_ff ex_blank_fields
        (LazyStrategy (FromForm ex_model [(''email'', Strategy 3)])) = (Inl InvalidArgument, [])
   \<and> draw_lazy ex_env_ok ex_module ex_ff ex_blank_fields
        (LazyStrategy (FromForm ex_model [(''email'', Strategy 3)])) 0 = (Inl InvalidArgument, 0)"
proof -
  have h: "isclass ex_form \<and> \<not> issubclass_Model ex_form"
    "isclass ex_model \<and> \<not> issubclass_BaseForm ex_model"
    by (simp_all add: ex_form_def ex_model_def)
  from invalid_class_raises_when_resolved [where model = ex_form and ff = ex_ff
      and kw = "[(''name'', Infer)]" and form = ex_model and bf = ex_blank_fields
      and kwf = "[(''email'', Strategy 3)]" and E = ex_env_ok and g = ex_module and w = 0] h
  show ?thesis by blast
qed

text \<open>
  C6, as stated: neither strategy raises either of \<^verbatim>\<open>IntegrityError\<close> and
  \<^verbatim>\<open>ValidationError\<close>. It fails for both: \<^verbatim>\<open>_models_impl\<close> catches
  \<^verbatim>\<open>IntegrityError\<close> only, so the strategy of the example model, a valid model
  class, raises the \<^verbatim>\<open>ValidationError\<close> that \<^verbatim>\<open>get_or_create\<close> raises; and
  \<^verbatim>\<open>_forms_impl\<close> catches \<^verbatim>\<open>ValidationError\<close> only, so the strategy of the
  example form raises the \<^verbatim>\<open>IntegrityError\<close> that the form's constructor raises.
\<close>

theorem other_kind_is_raised:
  "issubclass_Model ex_model
   \<and> from_model ex_ff ex_model [] =
     (Inr (ModelsImpl (Builds (GetOrCreate ex_model) [(''name'', Strategy 0)])),
      [(''name'', MF ex_name)])
   \<and> draw ex_env_crossed ex_module
        (ModelsImpl (Builds (GetOrCreate ex_model) [(''name'', Strategy 0)])) 0
       = (Inl ValidationError, 2)
   \<and> issubclass_BaseForm ex_form
   \<and> from_form ex_ff ex_blank_fields ex_form
        [(''email'', Strategy 3), (''prefix'', PyStr ''x''), (''n'', Infer)] =
      (Inr (FormsImpl (Builds
        (FormWrapSub (Some ex_form) (Some [(''prefix'', PyStr ''x''), (''n'', Infer)]))
        [(''email'', Strategy 3)])), [])
   \<and> draw ex_env_crossed ex_module (FormsImpl (Builds
        (FormWrapSub (Some ex_form) (Some [(''prefix'', PyStr ''x''), (''n'', Infer)]))
        [(''email'', Strategy 3)])) 0 = (Inl IntegrityError, 2)"
  using ex_from_model ex_crossed_model ex_from_form ex_crossed_form
  by (simp add: ex_model_def ex_form_def)

text \<open>
  C6, amended. Each strategy never raises the kind its own wrapper catches, and raises
  every other exception of its inner strategy as it is. Drawing from a strategy returned
  by \<^verbatim>\<open>from_model\<close> never raises \<^verbatim>\<open>IntegrityError\<close>: an
  \<^verbatim>\<open>IntegrityError\<close> of the inner draw becomes a rejection, and any other
  exception of the inner draw, \<^verbatim>\<open>ValidationError\<close> among them, reaches the caller.
  Drawing from a strategy returned by \<^verbatim>\<open>from_form\<close> never raises
  \<^verbatim>\<open>ValidationError\<close>: a \<^verbatim>\<open>ValidationError\<close> of the inner draw becomes a
  rejection, and any other exception, \<^verbatim>\<open>IntegrityError\<close> among them, reaches the
  caller.
\<close>

theorem each_wrapper_catches_its_own_kind:
  "(from_model ff model kw = (Inr strat, log) \<longrightarrow>
      fst (draw E g strat w) \<noteq> Inl IntegrityError
      \<and> (\<exists>inner. strat = ModelsImpl inner
           \<and> (draw E g inner w = (Inl IntegrityError, w') \<longrightarrow>
                draw E g strat w = (Inl UnsatisfiedAssumption, w'))
           \<and> (draw E g inner w = (Inl e, w') \<and> e \<noteq> IntegrityError \<longrightarrow>
                draw E g strat w = (Inl e, w'))))
   \<and> (from_form ff bf form kwf = (Inr stratf, logf) \<longrightarrow>
      fst (draw E g stratf w) \<noteq> Inl ValidationError
      \<and> (\<exists>inner. stratf = FormsImpl inner
           \<and> (draw E g inner w = (Inl ValidationError, w') \<longrightarrow>
                draw E g stratf w = (Inl UnsatisfiedAssumption, w'))
           \<and> (draw E g inner w = (Inl e, w') \<and> e \<noteq> ValidationError \<longrightarrow>
                draw E g stratf w = (Inl e, w'))))"
proof (intro conjI impI)
  assume "from_model ff model kw = (Inr strat, log)"
  then obtain target kwargs where s: "strat = ModelsImpl (Builds target kwargs)"
    using from_model_shape by blast
  then show "fst (draw E g strat w) \<noteq> Inl IntegrityError"
    by (auto simp: models_impl_def reject_def split: prod.splits sum.splits)
  from s show "\<exists>inner. strat = ModelsImpl inner
           \<and> (draw E g inner w = (Inl IntegrityError, w') \<longrightarrow>
                draw E g strat w = (Inl UnsatisfiedAssumption, w'))
           \<and> (draw E g inner w = (Inl e, w') \<and> e \<noteq> IntegrityError \<longrightarrow>
                draw E g strat w = (Inl e, w'))"
    by (simp add: models_impl_def reject_def)
next
  assume "from_form ff bf form kwf = (Inr stratf, logf)"
  then obtain c fs where s: "stratf = FormsImpl (Builds c fs)"
    by (elim from_form_success) simp
  then show "fst (draw E g stratf w) \<noteq> Inl ValidationError"
    by (auto simp: forms_impl_def reject_def split: prod.splits sum.splits)
  from s show "\<exists>inner. stratf = FormsImpl inner
           \<and> (draw E g inner w = (Inl ValidationError, w') \<longrightarrow>
                draw E g stratf w = (Inl UnsatisfiedAssumption, w'))
           \<and> (draw E g inner w = (Inl e, w') \<and> e \<noteq> ValidationError \<longrightarrow>
                draw E g stratf w = (Inl e, w'))"
    by (simp add: forms_impl_def reject_def)
qed

text \<open>
  The world where the manager raises \<^verbatim>\<open>ValidationError\<close> and the form's
  constructor \<^verbatim>\<open>IntegrityError\<close>, which both reach the caller, and the world
  where each raises the kind that is caught.
\<close>

theorem each_wrapper_catches_its_own_kind_witness:
  "from_model ex_ff ex_model [] =
     (Inr (ModelsImpl (Builds (GetOrCreate ex_model) [(''name'', Strategy 0)])),
      [(''name'', MF ex_name)])
   \<and> draw ex_env_crossed ex_module (Builds (GetOrCreate ex_model) [(''name'', Strategy 0)]) 0
       = (Inl ValidationError, 2)
   \<and> ValidationError \<noteq> IntegrityError
   \<and> draw ex_env_crossed ex_module
        (ModelsImpl (Builds (GetOrCreate ex_model) [(''name'', Strategy 0)])) 0
       = (Inl ValidationError, 2)
   \<and> from_form ex_ff ex_blank_fields ex_form
        [(''email'', Strategy 3), (''prefix'', PyStr ''x''), (''n'', Infer)] =
      (Inr (FormsImpl (Builds
        (FormWrapSub (Some ex_form) (Some [(''prefix'', PyStr ''x''), (''n'', Infer)]))
        [(''email'', Strategy 3)])), [])
   \<and> draw ex_env_crossed ex_module (Builds
        (FormWrapSub (Some ex_form) (Some [(''prefix'', PyStr ''x''), (''n'', Infer)]))
        [(''email'', Strategy 3)]) 0 = (Inl IntegrityError, 2)
   \<and> IntegrityError \<noteq> ValidationError
   \<and> draw ex_env_crossed ex_module (FormsImpl (Builds
        (FormWrapSub (Some ex_form) (Some [(''prefix'', PyStr ''x''), (''n'', Infer)]))
        [(''email'', Strategy 3)])) 0 = (Inl IntegrityError, 2)
   \<and> fst (draw ex_env_caught ex_module
        (ModelsImpl (Builds (GetOrCreate ex_model) [(''name'', Strategy 0)])) 0)
       \<noteq> Inl IntegrityError
   \<and> fst (draw ex_env_caught ex_module (FormsImpl (Builds
        (FormWrapSub (Some ex_form) (Some [(''prefix'', PyStr ''x''), (''n'', Infer)]))
        [(''email'', Strategy 3)])) 0) \<noteq> Inl ValidationError"
proof -
  note crossed = each_wrapper_catches_its_own_kind [where ff = ex_ff and model = ex_model
        and kw = "[]"
        and strat = "ModelsImpl (Builds (GetOrCreate ex_model) [(''name'', Strategy 0)])"
        and log = "[(''name'', MF ex_name)]" and E = ex_env_crossed and g = ex_module
        and w = 0 and w' = 2 and bf = ex_blank_fields and form = ex_form
        and kwf = "[(''email'', Strategy 3), (''prefix'', PyStr ''x''), (''n'', Infer)]"
        and stratf = "FormsImpl (Builds
          (FormWrapSub (Some ex_form) (Some [(''prefix'', PyStr ''x''), (''n'', Infer)]))
          [(''email'', Strategy 3)])" and logf = "[]"]
  note caught = each_wrapper_catches_its_own_kind [where ff = ex_ff and model = ex_model
        and kw = "[]"
        and strat = "ModelsImpl (Builds (GetOrCreate ex_model) [(''name'', Strategy 0)])"
        and log = "[(''name'', MF ex_name)]" and E = ex_env_caught and g = ex_module
        and w = 0 and bf = ex_blank_fields and form = ex_form
        and kwf = "[(''email'', Strategy 3), (''prefix'', PyStr ''x''), (''n'', Infer)]"
        and stratf = "FormsImpl (Builds
          (FormWrapSub (Some ex_form) (Some [(''prefix'', PyStr ''x''), (''n'', Infer)]))
          [(''email'', Strategy 3)])" and logf = "[]"]
  from crossed [where e = ValidationError] ex_from_model ex_crossed_model_inner
  have m: "draw ex_env_crossed ex_module
        (ModelsImpl (Builds (GetOrCreate ex_model) [(''name'', Strategy 0)])) 0
       = (Inl ValidationError, 2)"
    by auto
  from crossed [where e = IntegrityError] ex_from_form ex_crossed_form_inner
  have f: "draw ex_env_crossed ex_module (FormsImpl (Builds
        (FormWrapSub (Some ex_form) (Some [(''prefix'', PyStr ''x''), (''n'', Infer)]))
        [(''email'', Strategy 3)])) 0 = (Inl IntegrityError, 2)"
    by auto
  from caught ex_from_model ex_from_form
  have n: "fst (draw ex_env_caught ex_module
        (ModelsImpl (Builds (GetOrCreate ex_model) [(''name'', Strategy 0)])) 0)
       \<noteq> Inl IntegrityError"
    "fst (draw ex_env_caught ex_module (FormsImpl (Builds
        (FormWrapSub (Some ex_form) (Some [(''prefix'', PyStr ''x''), (''n'', Infer)]))
        [(''email'', Strategy 3)])) 0) \<noteq> Inl ValidationError"
    by blast+
  from ex_from_model ex_crossed_model_inner ex_from_form ex_crossed_form_inner m f n
  show ?thesis by simp
qed

text \<open>
  C7. On a store that holds the state of the module and every dictionary made so far, a
  call of \<^verbatim>\<open>from_model\<close> or \<^verbatim>\<open>from_form\<close> writes nothing that was there
  before: the attributes of \<^verbatim>\<open>_FormWrap\<close> and every dictionary of the store
  are as they were, and the call only adds the dictionaries it makes itself. It reads
  nothing of it either: what it returns is the function \<open>from_model\<close> or
  \<open>from_form\<close> of its arguments alone. So in a sequence of calls every call
  returns what it returns alone in any other store \<open>h0\<close>, whatever was called
  before; and drawing from a returned strategy does not depend on the state \<open>g\<close> of
  the module either, when the strategies given by the caller and by
  \<^verbatim>\<open>from_field\<close> do not read it.
\<close>

theorem no_state_between_calls:
  "(case from_model_st ff model kw h of
      (r, h') \<Rightarrow>
        r = from_model ff model kw
        \<and> FormWrap_attrs h' = FormWrap_attrs h
        \<and> length (dicts h) \<le> length (dicts h')
        \<and> (\<forall>a < length (dicts h). dicts h' ! a = dicts h ! a))
   \<and> (case from_form_st ff bf form kwf h of
      (r, h') \<Rightarrow>
        r = from_form ff bf form kwf
        \<and> FormWrap_attrs h' = FormWrap_attrs h
        \<and> length (dicts h) \<le> length (dicts h')
        \<and> (\<forall>a < length (dicts h). dicts h' ! a = dicts h ! a))
   \<and> (case run_calls ff bf cs h of
      (rs, h') \<Rightarrow>
        rs = map (\<lambda>c. fst (run_call ff bf c h0)) cs
        \<and> FormWrap_attrs h' = FormWrap_attrs h
        \<and> length (dicts h) \<le> length (dicts h')
        \<and> (\<forall>a < length (dicts h). dicts h' ! a = dicts h ! a))
   \<and> (from_model ff model kw = (Inr strat, log) \<and> module_free_kwargs kw
        \<and> (\<forall>f s. ff f = Inr s \<longrightarrow> module_free s) \<longrightarrow>
        draw E g strat w = draw E g' strat w)
   \<and> (from_form ff bf form kwf = (Inr stratf, logf) \<and> module_free_kwargs kwf
        \<and> (\<forall>f s. ff f = Inr s \<longrightarrow> module_free s) \<longrightarrow>
        draw E g stratf w = draw E g' stratf w)"
proof (intro conjI)
  show "case from_model_st ff model kw h of
      (r, h') \<Rightarrow>
        r = from_model ff model kw
        \<and> FormWrap_attrs h' = FormWrap_attrs h
        \<and> length (dicts h) \<le> length (dicts h')
        \<and> (\<forall>a < length (dicts h). dicts h' ! a = dicts h ! a)"
    using from_model_st_refines [of ff model kw h]
    by (simp add: preserved_def split: prod.splits)
  show "case from_form_st ff bf form kwf h of
      (r, h') \<Rightarrow>
        r = from_form ff bf form kwf
        \<and> FormWrap_attrs h' = FormWrap_attrs h
        \<and> length (dicts h) \<le> length (dicts h')
        \<and> (\<forall>a < length (dicts h). dicts h' ! a = dicts h ! a)"
    using from_form_st_refines [of ff bf form kwf h]
    by (simp add: preserved_def split: prod.splits)
  have alone: "fst (run_call ff bf c h0) = wrapped_strategy ff bf (LazyStrategy c)" for c
  proof (cases c)
    case (FromModel m k)
    with from_model_st_refines [of ff m k h0] show ?thesis
      by (simp split: prod.splits)
  next
    case (FromForm f k)
    with from_form_st_refines [of ff bf f k h0] show ?thesis
      by (simp split: prod.splits)
  qed
  show "case run_calls ff bf cs h of
      (rs, h') \<Rightarrow>
        rs = map (\<lambda>c. fst (run_call ff bf c h0)) cs
        \<and> FormWrap_attrs h' = FormWrap_attrs h
        \<and> length (dicts h) \<le> length (dicts h')
        \<and> (\<forall>a < length (dicts h). dicts h' ! a = dicts h ! a)"
    using run_calls_refines [of ff bf cs h]
    by (simp add: preserved_def alone split: prod.splits)
  show "from_model ff model kw = (Inr strat, log) \<and> module_free_kwargs kw
        \<and> (\<forall>f s. ff f = Inr s \<longrightarrow> module_free s) \<longrightarrow>
        draw E g strat w = draw E g' strat w"
    using from_model_module_free [of ff model kw strat log] draw_module_free(1) [of strat E g w g']
    by (simp add: module_free_kwargs_iff)
  show "from_form ff bf form kwf = (Inr stratf, logf) \<and> module_free_kwargs kwf
        \<and> (\<forall>f s. ff f = Inr s \<longrightarrow> module_free s) \<longrightarrow>
        draw E g stratf w = draw E g' stratf w"
    using from_form_module_free [of ff bf form kwf stratf logf]
      draw_module_free(1) [of stratf E g w g']
    by (simp add: module_free_kwargs_iff)
qed

text \<open>
  The example model and form in a store with one dictionary of the caller, compared
  with a store where both attributes of \<^verbatim>\<open>_FormWrap\<close> are changed.
\<close>

theorem no_state_between_calls_witness:
  "(0::nat) < length (dicts ex_heap)
   \<and> fst (from_model_st ex_ff ex_model [] ex_heap) = from_model ex_ff ex_model []
   \<and> FormWrap_attrs (snd (from_model_st ex_ff ex_model [] ex_heap)) = FormWrap_attrs ex_heap
   \<and> dicts (snd (from_model_st ex_ff ex_model [] ex_heap)) ! 0 = dicts ex_heap ! 0
   \<and> snd (from_model_st ex_ff ex_model [] ex_heap) =
       \<lparr>FormWrap_attrs = ex_module,
          dicts = [[(''shared'', PyInt 1)], [(''name'', Strategy 0)]]\<rparr>
   \<and> fst (from_form_st ex_ff ex_blank_fields ex_form
        [(''email'', Strategy 3), (''prefix'', PyStr ''x''), (''n'', Infer)] ex_heap)
       = from_form ex_ff ex_blank_fields ex_form
           [(''email'', Strategy 3), (''prefix'', PyStr ''x''), (''n'', Infer)]
   \<and> FormWrap_attrs (snd (from_form_st ex_ff ex_blank_fields ex_form
        [(''email'', Strategy 3), (''prefix'', PyStr ''x''), (''n'', Infer)] ex_heap))
       = FormWrap_attrs ex_heap
   \<and> dicts (snd (from_form_st ex_ff ex_blank_fields ex_form
        [(''email'', Strategy 3), (''prefix'', PyStr ''x''), (''n'', Infer)] ex_heap)) ! 0
       = dicts ex_heap ! 0
   \<and> fst (run_calls ex_ff ex_blank_fields
        [FromForm ex_form [(''email'', Strategy 3), (''prefix'', PyStr ''x''), (''n'', Infer)],
         FromModel ex_model []] ex_heap)
       = [fst (run_call ex_ff ex_blank_fields
                 (FromForm ex_form
                    [(''email'', Strategy 3), (''prefix'', PyStr ''x''), (''n'', Infer)])
                 ex_heap_changed),
          fst (run_call ex_ff ex_blank_fields (FromModel ex_model []) ex_heap_changed)]
   \<and> dicts (snd (run_calls ex_ff ex_blank_fields
        [FromForm ex_form [(''email'', Strategy 3), (''prefix'', PyStr ''x''), (''n'', Infer)],
         FromModel ex_model []] ex_heap)) ! 0 = dicts ex_heap ! 0
   \<and> module_free_kwargs []
   \<and> module_free_kwargs [(''email'', Strategy 3), (''prefix'', PyStr ''x''), (''n'', Infer)]
   \<and> draw ex_env_ok ex_module
        (ModelsImpl (Builds (GetOrCreate ex_model) [(''name'', Strategy 0)])) 0
       = draw ex_env_ok ex_module_changed
        (ModelsImpl (Builds (GetOrCreate ex_model) [(''name'', Strategy 0)])) 0
   \<and> draw ex_env_ok ex_module (FormsImpl (Builds
        (FormWrapSub (Some ex_form) (Some [(''prefix'', PyStr ''x''), (''n'', Infer)]))
        [(''email'', Strategy 3)])) 0
       = draw ex_env_ok ex_module_changed (FormsImpl (Builds
        (FormWrapSub (Some ex_form) (Some [(''prefix'', PyStr ''x''), (''n'', Infer)]))
        [(''email'', Strategy 3)])) 0"
proof -
  have pos: "(0::nat) < length (dicts ex_heap)"
    by (simp add: ex_heap_def)
  have free: "module_free_kwargs []"
    "module_free_kwargs [(''email'', Strategy 3), (''prefix'', PyStr ''x''), (''n'', Infer)]"
    by simp_all
  have ff: "\<forall>f s. ex_ff f = Inr s \<longrightarrow> module_free s"
    by (simp add: ex_ff_def)
  note inst = no_state_between_calls [where ff = ex_ff and model = ex_model and kw = "[]"
      and h = ex_heap and bf = ex_blank_fields and form = ex_form
      and kwf = "[(''email'', Strategy 3), (''prefix'', PyStr ''x''), (''n'', Infer)]"
      and cs = "[FromForm ex_form
                   [(''email'', Strategy 3), (''prefix'', PyStr ''x''), (''n'', Infer)],
                 FromModel ex_model []]"
      and ?h0.0 = ex_heap_changed
      and strat = "ModelsImpl (Builds (GetOrCreate ex_model) [(''name'', Strategy 0)])"
      and log = "[(''name'', MF ex_name)]"
      and stratf = "FormsImpl (Builds
          (FormWrapSub (Some ex_form) (Some [(''prefix'', PyStr ''x''), (''n'', Infer)]))
          [(''email'', Strategy 3)])" and logf = "[]"
      and E = ex_env_ok and g = ex_module and g' = ex_module_changed and w = 0,
      unfolded case_prod_beta]
  note c1 = inst [THEN conjunct1]
  note c2 = inst [THEN conjunct2, THEN conjunct1]
  note c3 = inst [THEN conjunct2, THEN conjunct2, THEN conjunct1]
  note c4 = inst [THEN conjunct2, THEN conjunct2, THEN conjunct2, THEN conjunct1]
  note c5 = inst [THEN conjunct2, THEN conjunct2, THEN conjunct2, THEN conjunct2]
  from c1 pos have m:
    "fst (from_model_st ex_ff ex_model [] ex_heap) = from_model ex_ff ex_model []"
    "FormWrap_attrs (snd (from_model_st ex_ff ex_model [] ex_heap)) = FormWrap_attrs ex_heap"
    "dicts (snd (from_model_st ex_ff ex_model [] ex_heap)) ! 0 = dicts ex_heap ! 0"
    by blast+
  from c2 pos have f:
    "fst (from_form_st ex_ff ex_blank_fields ex_form
        [(''email'', Strategy 3), (''prefix'', PyStr ''x''), (''n'', Infer)] ex_heap)
       = from_form ex_ff ex_blank_fields ex_form
           [(''email'', Strategy 3), (''prefix'', PyStr ''x''), (''n'', Infer)]"
    "FormWrap_attrs (snd (from_form_st ex_ff ex_blank_fields ex_form
        [(''email'', Strategy 3), (''prefix'', PyStr ''x''), (''n'', Infer)] ex_heap))
       = FormWrap_attrs ex_heap"
    "dicts (snd (from_form_st ex_ff ex_blank_fields ex_form
        [(''email'', Strategy 3), (''prefix'', PyStr ''x''), (''n'', Infer)] ex_heap)) ! 0
       = dicts ex_heap ! 0"
    by blast+
  from c3 pos have r:
    "fst (run_calls ex_ff ex_blank_fields
        [FromForm ex_form [(''email'', Strategy 3), (''prefix'', PyStr ''x''), (''n'', Infer)],
         FromModel ex_model []] ex_heap)
       = map (\<lambda>c. fst (run_call ex_ff ex_blank_fields c ex_heap_changed))
          [FromForm ex_form [(''email'', Strategy 3), (''prefix'', PyStr ''x''), (''n'', Infer)],
           FromModel ex_model []]"
    "dicts (snd (run_calls ex_ff ex_blank_fields
        [FromForm ex_form [(''email'', Strategy 3), (''prefix'', PyStr ''x''), (''n'', Infer)],
         FromModel ex_model []] ex_heap)) ! 0 = dicts ex_heap ! 0"
    by blast+
  from c4 ex_from_model free(1) ff have dm:
    "draw ex_env_ok ex_module
        (ModelsImpl (Builds (GetOrCreate ex_model) [(''name'', Strategy 0)])) 0
       = draw ex_env_ok ex_module_changed
        (ModelsImpl (Builds (GetOrCreate ex_model) [(''name'', Strategy 0)])) 0"
    by blast
  from c5 ex_from_form free(2) ff have df:
    "draw ex_env_ok ex_module (FormsImpl (Builds
        (FormWrapSub (Some ex_form) (Some [(''prefix'', PyStr ''x''), (''n'', Infer)]))
        [(''email'', Strategy 3)])) 0
       = draw ex_env_ok ex_module_changed (FormsImpl (Builds
        (FormWrapSub (Some ex_form) (Some [(''prefix'', PyStr ''x''), (''n'', Infer)]))
        [(''email'', Strategy 3)])) 0"
    by blast
  have hp: "snd (from_model_st ex_ff ex_model [] ex_heap) =
       \<lparr>FormWrap_attrs = ex_module,
          dicts = [[(''shared'', PyInt 1)], [(''name'', Strategy 0)]]\<rparr>"
    by (simp add: ex_from_model_st)
  from r(1) have r1:
    "fst (run_calls ex_ff ex_blank_fields
        [FromForm ex_form [(''email'', Strategy 3), (''prefix'', PyStr ''x''), (''n'', Infer)],
         FromModel ex_model []] ex_heap)
       = [fst (run_call ex_ff ex_blank_fields
                 (FromForm ex_form
                    [(''email'', Strategy 3), (''prefix'', PyStr ''x''), (''n'', Infer)])
                 ex_heap_changed),
          fst (run_call ex_ff ex_blank_fields (FromModel ex_model []) ex_heap_changed)]"
    by (simp only: list.map)
  from pos m hp f r1 r(2) free dm df show ?thesis
    by (intro conjI)
qed

text \<open>
  C8. The keyword arguments of \<^verbatim>\<open>from_form\<close>, whose names differ, are split in
  two: those whose value is an instance of \<^verbatim>\<open>SearchStrategy\<close> are the field
  strategies, all others are the keyword arguments of the form's constructor;
  \<^verbatim>\<open>infer\<close> is no instance of \<^verbatim>\<open>SearchStrategy\<close>, so it is among the
  latter. The loop that replaces \<^verbatim>\<open>infer\<close> runs over the field strategies only,
  where it changes nothing and never calls \<^verbatim>\<open>from_field\<close>; so
  \<^verbatim>\<open>from_form\<close> is the instantiation of the form with the constructor's keyword
  arguments, followed by the inference for the fields without a strategy.
\<close>

theorem keyword_arguments_partition:
  assumes "distinct (map fst kw)" and "issubclass_BaseForm form"
  shows "split_loop kw [] [] =
           (filter (\<lambda>kv. isinstance_SearchStrategy (snd kv)) kw,
            filter (\<lambda>kv. \<not> isinstance_SearchStrategy (snd kv)) kw)
         \<and> \<not> isinstance_SearchStrategy Infer
         \<and> form_infer_loop ff flds
              (sorted_items (filter (\<lambda>kv. isinstance_SearchStrategy (snd kv)) kw))
              (filter (\<lambda>kv. isinstance_SearchStrategy (snd kv)) kw) log
             = (Inr (filter (\<lambda>kv. isinstance_SearchStrategy (snd kv)) kw), log)
         \<and> from_form ff bf form kw =
             (case bf form (filter (\<lambda>kv. \<not> isinstance_SearchStrategy (snd kv)) kw) of
                Inl e \<Rightarrow> (Inl e, [])
              | Inr fields_by_name \<Rightarrow>
                  (case form_default_loop ff (sorted_items fields_by_name)
                          (filter (\<lambda>kv. isinstance_SearchStrategy (snd kv)) kw) [] of
                     (Inl e, log) \<Rightarrow> (Inl e, log)
                   | (Inr fs2, log2) \<Rightarrow>
                       (Inr (FormsImpl (Builds
                          (FormWrapSub (Some form)
                             (Some (filter (\<lambda>kv. \<not> isinstance_SearchStrategy (snd kv)) kw)))
                          fs2)), log2)))"
proof -
  let ?fs = "filter (\<lambda>kv. isinstance_SearchStrategy (snd kv)) kw"
  let ?fkw = "filter (\<lambda>kv. \<not> isinstance_SearchStrategy (snd kv)) kw"
  have sp: "split_loop kw [] [] = (?fs, ?fkw)"
    using assms(1) by (rule split_loop_distinct)
  have dead: "form_infer_loop ff flds (sorted_items ?fs) ?fs log = (Inr ?fs, log)"
    for flds log
    by (rule form_infer_loop_dead) (simp add: set_sorted_items)
  have "from_form ff bf form kw =
      (case bf form ?fkw of
         Inl e \<Rightarrow> (Inl e, [])
       | Inr fields_by_name \<Rightarrow>
           (case form_default_loop ff (sorted_items fields_by_name) ?fs [] of
              (Inl e, log) \<Rightarrow> (Inl e, log)
            | (Inr fs2, log2) \<Rightarrow>
                (Inr (FormsImpl (Builds (FormWrapSub (Some form) (Some ?fkw)) fs2)), log2)))"
    using assms(2) by (simp add: from_form_def sp dead split: sum.splits)
  with sp dead show ?thesis by simp
qed

text \<open>The example form with a strategy, a constructor argument and \<^verbatim>\<open>infer\<close>.\<close>

theorem keyword_arguments_partition_witness:
  "distinct (map fst [(''email'', Strategy 3), (''prefix'', PyStr ''x''), (''n'', Infer)])
   \<and> issubclass_BaseForm ex_form
   \<and> split_loop [(''email'', Strategy 3), (''prefix'', PyStr ''x''), (''n'', Infer)] [] []
       = ([(''email'', Strategy 3)], [(''prefix'', PyStr ''x''), (''n'', Infer)])
   \<and> form_infer_loop ex_ff [(''email'', ex_email), (''token'', ex_token)]
        (sorted_items [(''email'', Strategy 3)]) [(''email'', Strategy 3)] []
       = (Inr [(''email'', Strategy 3)], [])
   \<and> from_form ex_ff ex_blank_fields ex_form
        [(''email'', Strategy 3), (''prefix'', PyStr ''x''), (''n'', Infer)]
       = (case ex_blank_fields ex_form [(''prefix'', PyStr ''x''), (''n'', Infer)] of
            Inl e \<Rightarrow> (Inl e, [])
          | Inr fields_by_name \<Rightarrow>
              (case form_default_loop ex_ff (sorted_items fields_by_name)
                      [(''email'', Strategy 3)] [] of
                 (Inl e, log) \<Rightarrow> (Inl e, log)
               | (Inr fs2, log2) \<Rightarrow>
                   (Inr (FormsImpl (Builds
                      (FormWrapSub (Some ex_form)
                         (Some [(''prefix'', PyStr ''x''), (''n'', Infer)]))
                      fs2)), log2)))"
proof -
  have d: "distinct (map fst [(''email'', Strategy 3), (''prefix'', PyStr ''x''), (''n'', Infer)])"
    by simp
  have c: "issubclass_BaseForm ex_form"
    by (simp add: ex_form_def)
  have fs: "filter (\<lambda>kv. isinstance_SearchStrategy (snd kv))
      [(''email'', Strategy 3), (''prefix'', PyStr ''x''), (''n'', Infer)]
      = [(''email'', Strategy 3)]"
    and fkw: "filter (\<lambda>kv. \<not> isinstance_SearchStrategy (snd kv))
      [(''email'', Strategy 3), (''prefix'', PyStr ''x''), (''n'', Infer)]
      = [(''prefix'', PyStr ''x''), (''n'', Infer)]"
    by simp_all
  from keyword_arguments_partition [OF d c, where ff = ex_ff and bf = ex_blank_fields
      and flds = "[(''email'', ex_email), (''token'', ex_token)]" and log = "[]"]
  show ?thesis
    unfolding fs fkw using d c by blast
qed

text \<open>
  C9. When drawing from a strategy returned by \<^verbatim>\<open>from_model\<close> returns a value,
  the strategy is \<^verbatim>\<open>_models_impl\<close> over \<^verbatim>\<open>builds\<close> of
  \<^verbatim>\<open>get_or_create\<close> or \<^verbatim>\<open>update_or_create\<close> of the model, the manager
  method returned a pair \<open>(v, created)\<close>, and the value drawn is \<open>v\<close>, the
  instance: the flag \<open>created\<close> is dropped.
\<close>

theorem drawn_value_is_the_instance:
  assumes "from_model ff model kw = (Inr strat, log)"
    and "draw E g strat w = (Inr v, w')"
  shows "\<exists>target kwargs vals w0 created.
           strat = ModelsImpl (Builds target kwargs)
           \<and> draw_kwargs E g kwargs w = (Inr vals, w0)
           \<and> (target = GetOrCreate model
                  \<and> get_or_create E model vals w0 = (Inr (v, created), w')
               \<or> target = UpdateOrCreate model
                  \<and> update_or_create E model vals w0 = (Inr (v, created), w'))"
proof -
  from assms(1) obtain target kwargs where
    strat: "strat = ModelsImpl (Builds target kwargs)" and
    target: "target = GetOrCreate model \<or> target = UpdateOrCreate model"
    using from_model_shape by blast
  from assms(2) obtain r where
    inner: "draw E g (Builds target kwargs) w = (Inr r, w')" and r: "getitem0 r = Inr v"
    unfolding strat
    by (auto simp: models_impl_def reject_def split: prod.splits sum.splits if_splits)
  from inner obtain vals w0 where
    kwargs: "draw_kwargs E g kwargs w = (Inr vals, w0)" and
    called: "call E g target vals w0 = (Inr r, w')"
    by (auto split: prod.splits sum.splits)
  from target show ?thesis
  proof
    assume t: "target = GetOrCreate model"
    with called obtain obj created where
      "get_or_create E model vals w0 = (Inr (obj, created), w')"
      "r = PyTuple [obj, PyBool created]"
      by (auto simp: pair_result_def split: prod.splits sum.splits)
    with r strat kwargs t show ?thesis by auto
  next
    assume t: "target = UpdateOrCreate model"
    with called obtain obj created where
      "update_or_create E model vals w0 = (Inr (obj, created), w')"
      "r = PyTuple [obj, PyBool created]"
      by (auto simp: pair_result_def split: prod.splits sum.splits)
    with r strat kwargs t show ?thesis by auto
  qed
qed
text \<open>The example model in the world where \<^verbatim>\<open>get_or_create\<close> returns \<open>(PyObj 7, True)\<close>.\<close>

theorem drawn_value_is_the_instance_witness:
  "from_model ex_ff ex_model [] =
     (Inr (ModelsImpl (Builds (GetOrCreate ex_model) [(''name'', Strategy 0)])),
      [(''name'', MF ex_name)])
   \<and> draw ex_env_ok ex_module
        (ModelsImpl (Builds (GetOrCreate ex_model) [(''name'', Strategy 0)])) 0
       = (Inr (PyObj 7), 2)
   \<and> (\<exists>target kwargs vals w0 created.
         ModelsImpl (Builds (GetOrCreate ex_model) [(''name'', Strategy 0)])
           = ModelsImpl (Builds target kwargs)
         \<and> draw_kwargs ex_env_ok ex_module kwargs 0 = (Inr vals, w0)
         \<and> (target = GetOrCreate ex_model
                \<and> get_or_create ex_env_ok ex_model vals w0 = (Inr (PyObj 7, created), 2)
             \<or> target = UpdateOrCreate ex_model
                \<and> update_or_create ex_env_ok ex_model vals w0 = (Inr (PyObj 7, created), 2)))"
  using drawn_value_is_the_instance [OF ex_from_model ex_ok_model] ex_from_model ex_ok_model
  by simp

text \<open>
  C10. When drawing from a strategy returned by \<^verbatim>\<open>from_form\<close> returns a value,
  that value is what the constructor of the form class returned when it was called with
  the keyword argument \<^verbatim>\<open>data\<close>, bound to the dictionary of the values drawn for
  the field strategies, followed by the keyword arguments of \<^verbatim>\<open>from_form\<close> that
  are no strategies.
\<close>

theorem form_constructed_with_data:
  assumes "from_form ff bf form kw = (Inr strat, log)"
    and "distinct (map fst kw)"
    and "draw E g strat w = (Inr v, w')"
  shows "\<exists>field_strategies vals w0.
           strat = FormsImpl (Builds
             (FormWrapSub (Some form)
                (Some (filter (\<lambda>kv. \<not> isinstance_SearchStrategy (snd kv)) kw)))
             field_strategies)
           \<and> draw_kwargs E g field_strategies w = (Inr vals, w0)
           \<and> form_init E form
                ((''data'', PyDict vals)
                   # filter (\<lambda>kv. \<not> isinstance_SearchStrategy (snd kv)) kw) w0
               = (Inr v, w')"
proof -
  let ?fkw = "filter (\<lambda>kv. \<not> isinstance_SearchStrategy (snd kv)) kw"
  from assms(1) obtain fs fkw fs2 where
    sp: "split_loop kw [] [] = (fs, fkw)" and
    strat: "strat = FormsImpl (Builds (FormWrapSub (Some form) (Some fkw)) fs2)"
    by (rule from_form_success)
  have fkw: "fkw = ?fkw"
    using sp split_loop_distinct [OF assms(2)] by simp
  from assms(3) have
    inner: "draw E g (Builds (FormWrapSub (Some form) (Some fkw)) fs2) w = (Inr v, w')"
    unfolding strat
    by (auto simp: forms_impl_def reject_def split: prod.splits sum.splits if_splits)
  then obtain vals w0 where
    kwargs: "draw_kwargs E g fs2 w = (Inr vals, w0)" and
    new: "FormWrap_new E g (Some form) (Some fkw) vals w0 = (Inr v, w')"
    by (auto split: prod.splits sum.splits)
  from new have "form_init E form ((''data'', PyDict vals) # fkw) w0 = (Inr v, w')"
    by (auto simp: FormWrap_new_def Let_def split: if_splits)
  with strat kwargs fkw show ?thesis by auto
qed

text \<open>
  The example form with a strategy for \<^verbatim>\<open>email\<close> and two other keyword
  arguments, in the world where every call succeeds.
\<close>

theorem form_constructed_with_data_witness:
  "from_form ex_ff ex_blank_fields ex_form
        [(''email'', Strategy 3), (''prefix'', PyStr ''x''), (''n'', Infer)] =
      (Inr (FormsImpl (Builds
        (FormWrapSub (Some ex_form) (Some [(''prefix'', PyStr ''x''), (''n'', Infer)]))
        [(''email'', Strategy 3)])), [])
   \<and> distinct (map fst [(''email'', Strategy 3), (''prefix'', PyStr ''x''), (''n'', Infer)])
   \<and> draw ex_env_ok ex_module (FormsImpl (Builds
        (FormWrapSub (Some ex_form) (Some [(''prefix'', PyStr ''x''), (''n'', Infer)]))
        [(''email'', Strategy 3)])) 0 = (Inr (PyObj 8), 2)
   \<and> (\<exists>field_strategies vals w0.
         draw_kwargs ex_env_ok ex_module field_strategies 0 = (Inr vals, w0)
         \<and> form_init ex_env_ok ex_form
              [(''data'', PyDict vals), (''prefix'', PyStr ''x''), (''n'', Infer)] w0
             = (Inr (PyObj 8), 2))"
proof -
  have d: "distinct (map fst [(''email'', Strategy 3), (''prefix'', PyStr ''x''), (''n'', Infer)])"
    by simp
  have flt: "filter (\<lambda>kv. \<not> isinstance_SearchStrategy (snd kv))
      [(''email'', Strategy 3), (''prefix'', PyStr ''x''), (''n'', Infer)]
      = [(''prefix'', PyStr ''x''), (''n'', Infer)]"
    by simp
  from form_constructed_with_data [OF ex_from_form d ex_ok_form]
  have "\<exists>field_strategies vals w0.
         draw_kwargs ex_env_ok ex_module field_strategies 0 = (Inr vals, w0)
         \<and> form_init ex_env_ok ex_form
              [(''data'', PyDict vals), (''prefix'', PyStr ''x''), (''n'', Infer)] w0
             = (Inr (PyObj 8), 2)"
    unfolding flt by blast
  with ex_from_form d ex_ok_form show ?thesis by blast
qed

end
